theory Spec2Isabelle
  imports Complex_Main "HOL-Library.Word"
begin

unbundle bit_operations_syntax

section \<open>Seeded word selection\<close>

text \<open>
  Text is modelled as \<^typ>\<open>string\<close>, a list of 8-bit characters, and the code unit of
  a character (\<open>charCodeAt\<close>) as \<open>of_char c\<close>. Seed strings are made of a mode key, a
  colon and a date or time key; both word lists and the key input admit only the letters
  a to z.

  \<open>hashStringToSeed\<close> keeps its accumulator within 32 bits (\<open>^=\<close>, \<open>Math.imul\<close>,
  \<open>>>> 0\<close>), so the accumulator is a 32-bit word: \<open>*\<close> wraps as \<open>Math.imul\<close> does.
\<close>

definition hashStringToSeed :: "string \<Rightarrow> 32 word" where
  "hashStringToSeed str =
     fold (\<lambda>c h. (h XOR of_char c) * 16777619) str 2166136261"

text \<open>
  \<open>mulberry32(seed)\<close> returns a closure over the counter \<open>a\<close>, initialised to
  \<open>seed >>> 0\<close>. The counter is a number that \<open>a += 0x6D2B79F5\<close> increments without
  wrapping; every use of it goes through a bitwise operator, which reads it modulo
  \<open>2 ^ 32\<close>. The closure's state is therefore an integer, and one call of the
  closure is \<open>mulberry32_next\<close>: it returns the numerator \<open>k\<close> of the result
  \<open>k / 4294967296\<close> together with the new counter.
\<close>

definition mulberry32 :: "32 word \<Rightarrow> int" where
  "mulberry32 seed = uint seed"

definition mulberry32_next :: "int \<Rightarrow> int \<times> int" where
  "mulberry32_next a0 =
     (let a = a0 + 0x6D2B79F5;
          aw = (word_of_int a :: 32 word);
          t = (aw XOR drop_bit 15 aw) * (1 OR aw);
          t = t XOR (t + (t XOR drop_bit 7 t) * (61 OR t))
      in (uint (t XOR drop_bit 14 t), a))"

text \<open>
  \<open>rng() * pool.length\<close> is one multiplication of binary64 numbers. Both factors are
  exact (\<open>k / 2 ^ 32\<close> with \<open>k < 2 ^ 32\<close>, and the length), so the product is the
  exact value \<open>k * n / 2 ^ 32\<close> rounded to 53 significant bits, ties to even; scaling
  by \<open>2 ^ 32\<close> does not change which bits are kept. \<open>round53\<close> is that rounding on the
  numerator, and \<open>Math.floor\<close> of the product is the integer quotient by \<open>2 ^ 32\<close>.
\<close>

function bitLength :: "int \<Rightarrow> nat" where
  "bitLength n = (if n \<le> 0 then 0 else Suc (bitLength (n div 2)))"
  by pat_completeness auto
termination
  by (relation "measure nat") auto

declare bitLength.simps [simp del]

definition round53 :: "int \<Rightarrow> int" where
  "round53 N =
     (if N < 2 ^ 53 then N
      else let e = bitLength N - 53; q = N div 2 ^ e; r = N mod 2 ^ e
           in (if 2 ^ e < 2 * r \<or> (2 * r = 2 ^ e \<and> odd q) then q + 1 else q) * 2 ^ e)"

definition floorScaled :: "int \<Rightarrow> int \<Rightarrow> int" where
  "floorScaled k n = round53 (k * n) div 2 ^ 32"

text \<open>
  \<open>pickSeededWord\<close>. The pool is an array of words; \<open>pool[idx]\<close> outside the array is
  \<open>undefined\<close>, which is the result \<open>None\<close> here.
\<close>

definition pickSeededWord :: "string \<Rightarrow> string list \<Rightarrow> string option" where
  "pickSeededWord seedStr pool =
     (if pool = [] then Some ''speed''
      else let seed = hashStringToSeed seedStr;
               rng = mulberry32 seed;
               idx = floorScaled (fst (mulberry32_next rng)) (int (length pool))
           in if 0 \<le> idx \<and> idx < int (length pool) then Some (pool ! nat idx) else None)"

section \<open>Scoring a guess\<close>

datatype feedback = Bad | Present | Good

text \<open>
  \<open>counts\<close> is an object used as a dictionary from letters to numbers. A missing letter
  reads as \<open>undefined\<close>: \<open>counts[c] || 0\<close> is \<open>0\<close>, and \<open>counts[c] > 0\<close> is false.
\<close>

definition countOr0 :: "(char \<rightharpoonup> nat) \<Rightarrow> char \<Rightarrow> nat" where
  "countOr0 counts c = (case counts c of None \<Rightarrow> 0 | Some n \<Rightarrow> n)"

text \<open>The body of the first loop, at index \<open>i\<close> of the answer.\<close>

definition pass1 ::
  "string \<Rightarrow> string \<Rightarrow> nat \<Rightarrow> feedback list \<times> (char \<rightharpoonup> nat) \<Rightarrow> feedback list \<times> (char \<rightharpoonup> nat)"
where
  "pass1 g a i = (\<lambda>(res, counts).
     if i < length g \<and> g ! i = a ! i then (res[i := Good], counts)
     else (res, counts(a ! i \<mapsto> countOr0 counts (a ! i) + 1)))"

text \<open>The body of the second loop, at index \<open>i\<close> of the guess.\<close>

definition pass2 ::
  "string \<Rightarrow> nat \<Rightarrow> feedback list \<times> (char \<rightharpoonup> nat) \<Rightarrow> feedback list \<times> (char \<rightharpoonup> nat)"
where
  "pass2 g i = (\<lambda>(res, counts).
     if res ! i = Good then (res, counts)
     else let ch = g ! i in
       if 0 < countOr0 counts ch then (res[i := Present], counts(ch \<mapsto> countOr0 counts ch - 1))
       else (res, counts))"

definition makeFeedback :: "string \<Rightarrow> string \<Rightarrow> feedback list" where
  "makeFeedback guess answer =
     (let g = guess; a = answer;
          res = replicate (length g) Bad;
          st = fold (pass1 g a) [0..<length a] (res, Map.empty);
          st = fold (pass2 g) [0..<length g] st
      in fst st)"

text \<open>
  The number of positions of the guess that hold the letter \<open>c\<close> and are marked
  correct or present.
\<close>

definition marksFor :: "char \<Rightarrow> string \<Rightarrow> feedback list \<Rightarrow> nat" where
  "marksFor c g res = length (filter (\<lambda>i. g ! i = c \<and> res ! i \<noteq> Bad) [0..<length g])"

text \<open>
  The loop invariants of the two passes, used in the proofs below. After \<open>k\<close> steps of
  the first loop, the marks are \<open>Good\<close> exactly at the matching positions below \<open>k\<close>,
  and the remainder count of a letter is the number of its non-matching positions in the
  answer below \<open>k\<close>.
\<close>

definition inv1 :: "string \<Rightarrow> string \<Rightarrow> nat \<Rightarrow> feedback list \<times> (char \<rightharpoonup> nat) \<Rightarrow> bool" where
  "inv1 g a k st \<longleftrightarrow>
     length (fst st) = length g \<and>
     (\<forall>i<length g. fst st ! i = (if i < k \<and> g ! i = a ! i then Good else Bad)) \<and>
     (\<forall>c. countOr0 (snd st) c =
        length (filter (\<lambda>i. a ! i = c \<and> \<not> (i < length g \<and> g ! i = a ! i)) [0..<k]))"

text \<open>
  After \<open>k\<close> steps of the second loop from the state \<open>st1\<close>: the \<open>Good\<close> marks are
  those of \<open>st1\<close>, positions from \<open>k\<close> on are untouched, and for every letter the
  \<open>Present\<close> marks given so far plus the remainder still available make up the remainder
  that the first loop left.
\<close>

definition inv2 ::
  "string \<Rightarrow> feedback list \<times> (char \<rightharpoonup> nat) \<Rightarrow> nat \<Rightarrow> feedback list \<times> (char \<rightharpoonup> nat) \<Rightarrow> bool" where
  "inv2 g st1 k st \<longleftrightarrow>
     length (fst st) = length g \<and>
     (\<forall>i<length g. (fst st ! i = Good) = (fst st1 ! i = Good)) \<and>
     (\<forall>i<length g. k \<le> i \<longrightarrow> fst st ! i = fst st1 ! i) \<and>
     (\<forall>c. length (filter (\<lambda>i. g ! i = c \<and> fst st ! i = Present) [0..<k]) + countOr0 (snd st) c
          = countOr0 (snd st1) c)"

section \<open>Text helpers\<close>

text \<open>
  Characters are code units below 256. The case mappings are those of the ASCII letters
  and leave every other character alone; \<open>trim\<close> removes the white space characters
  below 256 from both ends. Key input admits only ASCII letters (\<open>/^[a-z]$/i\<close>) and an
  accepted guess only the letters a to z (\<open>/^[a-z]+$/\<close>).
\<close>

definition MIN_LEN :: nat where
  "MIN_LEN = 3"

definition MAX_LEN :: nat where
  "MAX_LEN = 9"

definition isLower :: "char \<Rightarrow> bool" where
  "isLower c = (97 \<le> (of_char c :: nat) \<and> (of_char c :: nat) \<le> 122)"

definition isUpper :: "char \<Rightarrow> bool" where
  "isUpper c = (65 \<le> (of_char c :: nat) \<and> (of_char c :: nat) \<le> 90)"

definition isSpace :: "char \<Rightarrow> bool" where
  "isSpace c = ((of_char c :: nat) \<in> {9, 10, 11, 12, 13, 32, 160})"

definition toLowerCase :: "string \<Rightarrow> string" where
  "toLowerCase w = map (\<lambda>c. if isUpper c then char_of ((of_char c :: nat) + 32) else c) w"

definition toUpperCase :: "string \<Rightarrow> string" where
  "toUpperCase w = map (\<lambda>c. if isLower c then char_of ((of_char c :: nat) - 32) else c) w"

definition trim :: "string \<Rightarrow> string" where
  "trim w = rev (dropWhile isSpace (rev (dropWhile isSpace w)))"

definition normaliseWord :: "string \<Rightarrow> string" where
  "normaliseWord w = toLowerCase (trim w)"

text \<open>The test \<open>/^[a-z]+$/\<close>.\<close>

definition lowerAlpha :: "string \<Rightarrow> bool" where
  "lowerAlpha w = (w \<noteq> [] \<and> list_all isLower w)"

text \<open>The test \<open>/^[a-z]$/i\<close> on a key.\<close>

definition singleLetter :: "string \<Rightarrow> bool" where
  "singleLetter ch = (case ch of [c] \<Rightarrow> isLower c \<or> isUpper c | _ \<Rightarrow> False)"

text \<open>\<open>String(n)\<close> of a natural number, and \<open>padStart(2, '0')\<close>.\<close>

fun showNat :: "nat \<Rightarrow> string" where
  "showNat n = (if n < 10 then [char_of (48 + n)] else showNat (n div 10) @ [char_of (48 + n mod 10)])"

declare showNat.simps [simp del]

definition padStart2 :: "string \<Rightarrow> string" where
  "padStart2 w = replicate (2 - length w) CHR ''0'' @ w"

text \<open>Times are numbers of milliseconds, modelled as real numbers.\<close>

definition formatMMSS :: "real \<Rightarrow> string" where
  "formatMMSS ms =
     (let s = max 0 \<lfloor>ms / 1000\<rfloor>;
          mm = padStart2 (showNat (nat (s div 60)));
          ss = padStart2 (showNat (nat (s mod 60)))
      in mm @ '':'' @ ss)"

section \<open>Key state\<close>

record guess =
  word :: string
  fb :: "feedback list"

definition rank :: "feedback \<Rightarrow> nat" where
  "rank f = (case f of Bad \<Rightarrow> 0 | Present \<Rightarrow> 1 | Good \<Rightarrow> 2)"

text \<open>
  The key state is an object used as a dictionary from upper-case letters to marks. The
  body of the inner loop of \<open>computeKeyStateFromGuesses\<close>, at index \<open>i\<close> of the guess
  \<open>g\<close>: \<open>g.fb[i]\<close> beyond the end of \<open>fb\<close> is \<open>undefined\<close> (\<open>None\<close>), which is stored
  when the letter has no mark yet and never outranks a mark.
\<close>

definition keyStateStep :: "guess \<Rightarrow> nat \<Rightarrow> (string \<rightharpoonup> feedback) \<Rightarrow> (string \<rightharpoonup> feedback)" where
  "keyStateStep g i ks =
     (let ch = toUpperCase [word g ! i];
          next = (if i < length (fb g) then Some (fb g ! i) else None);
          prev = ks ch
      in case prev of
           None \<Rightarrow> ks(ch := next)
         | Some p \<Rightarrow>
             (case next of
                None \<Rightarrow> ks
              | Some n \<Rightarrow> if rank p < rank n then ks(ch \<mapsto> n) else ks))"

definition computeKeyStateFromGuesses :: "guess list \<Rightarrow> (string \<rightharpoonup> feedback)" where
  "computeKeyStateFromGuesses gs =
     fold (\<lambda>g ks. fold (keyStateStep g) [0..<length (word g)] ks) gs Map.empty"

section \<open>Boards and the application state\<close>

datatype status = Running | Solved | Failed

datatype messageKind = Info | Warn | Success

record board =
  modeKey :: string
  modeLabel :: string
  seedKey :: string
  answer :: string
  status :: status
  hasStarted :: bool
  startedAtISO :: string
  lastActiveISO :: string
  startPerfTs :: real
  elapsedMs :: real
  finalMs :: "real option"
  currentGuess :: string
  guesses :: "guess list"
  keyState :: "string \<rightharpoonup> feedback"

text \<open>
  What the local storage holds under a key is a string. \<open>loadBoardFromStorage\<close> reads it
  through \<open>JSON.parse\<close> and \<open>typeof\<close>, so a stored item is classified by what these see:
  the empty string, a string that is not JSON, a JSON primitive (\<open>null\<close>, a boolean, a
  number or a string), a JSON array, or a JSON object. Of an object, the fields
  \<open>answer\<close>, \<open>currentGuess\<close> and \<open>hasStarted\<close>, which the loader tests with \<open>typeof\<close>,
  carry a tag: absent, present with a value of another type, or present with a value of
  the expected type. \<open>stored_elapsedMs\<close> is the value of \<open>Number(obj.elapsedMs)\<close>, with
  \<open>None\<close> for \<open>NaN\<close>. The field \<open>guesses\<close> is any JSON value, or absent: the loader
  only tests it with \<open>Array.isArray\<close> and hands the array, whatever its entries are, to
  \<open>computeKeyStateFromGuesses\<close>. The remaining fields have the shape that
  \<open>saveBoardToStorage\<close> writes.
\<close>

datatype json =
    JNull
  | JBool bool
  | JNum real
  | JStr string
  | JArr "json list"
  | JObj "(string \<times> json) list"

text \<open>
  \<^const>\<open>JObj\<close> lists the members of the object in the order of the text; where a name
  occurs twice, \<open>JSON.parse\<close> keeps the later member, and so does \<open>member\<close>. A value
  that may be \<open>undefined\<close> is a \<open>json option\<close>, with \<open>None\<close> for \<open>undefined\<close>.
\<close>

definition member :: "(string \<times> json) list \<Rightarrow> string \<Rightarrow> json option" where
  "member fs p = map_of (rev fs) p"

text \<open>
  What the key state computation on stored values takes from the platform.
  \<open>toNumber\<close> is \<open>ToNumber\<close> on a parsed value, with \<open>None\<close> for \<open>NaN\<close>.
  \<open>inheritedGreater a b\<close> is \<open>rank[a] > rank[b]\<close> for two property names that are
  none of \<open>bad\<close>, \<open>present\<close>, \<open>good\<close>: each of the two values is \<open>undefined\<close> or
  a property that \<open>rank\<close> inherits from \<open>Object.prototype\<close>, and two inherited
  functions compare by their source texts.
\<close>

record platform =
  toNumber :: "json \<Rightarrow> real option"
  inheritedGreater :: "string \<Rightarrow> string \<Rightarrow> bool"

datatype error = TypeError

datatype 'a jsfield = Absent | OtherType | Has 'a

record snapshot =
  stored_modeKey :: string
  stored_modeLabel :: string
  stored_seedKey :: string
  stored_answer :: "string jsfield"
  stored_status :: status
  stored_startedAtISO :: string
  stored_lastActiveISO :: string
  stored_elapsedMs :: "real option"
  stored_finalMs :: "real option"
  stored_currentGuess :: "string jsfield"
  stored_hasStarted :: "bool jsfield"
  stored_guesses :: "json option"

datatype stored = EmptyString | NotJSON | JPrimitive | JArray | JObject snapshot

text \<open>
  The result of a successful load is the parsed object itself, with some fields
  repaired and \<open>keyState\<close> added. The key state computed from stored guesses holds
  whatever values the entries give as marks.
\<close>

record loaded =
  obj :: snapshot
  obj_keyState :: "string \<rightharpoonup> json"

subsection \<open>The key state of stored guesses\<close>

text \<open>
  \<open>computeKeyStateFromGuesses\<close> on the entries of a parsed array, which are arbitrary
  JSON values. Reading a property of \<open>null\<close> or \<open>undefined\<close>, and calling
  \<open>toUpperCase\<close> on anything but a string, throws a \<open>TypeError\<close>; the result of a
  step is the error or the value.
\<close>

definition bindE :: "error + 'a \<Rightarrow> ('a \<Rightarrow> error + 'b) \<Rightarrow> error + 'b" where
  "bindE r f = (case r of Inl e \<Rightarrow> Inl e | Inr x \<Rightarrow> f x)"

definition foldE :: "('a \<Rightarrow> 'b \<Rightarrow> error + 'b) \<Rightarrow> 'a list \<Rightarrow> 'b \<Rightarrow> error + 'b" where
  "foldE f xs a = fold (\<lambda>x r. bindE r (f x)) xs (Inr a)"

text \<open>
  \<open>g.word\<close> and \<open>g.fb\<close>: the named property of an object; \<open>undefined\<close> on a boolean,
  a number, a string or an array, none of which has a property of these names.
\<close>

fun getField :: "string \<Rightarrow> json \<Rightarrow> error + json option" where
  "getField p JNull = Inl TypeError"
| "getField p (JObj fs) = Inr (member fs p)"
| "getField p v = Inr None"

text \<open>
  \<open>w.length\<close> as the bound of \<open>i < w.length\<close>: a number, or \<open>None\<close> when the comparison
  is false for every \<open>i\<close> (the length is \<open>undefined\<close> or converts to \<open>NaN\<close>). A string
  and an array have their lengths; a boolean and a number have no such property; an
  object has the member \<open>length\<close> or not, and its value is converted by \<open>ToNumber\<close>.
\<close>

fun lengthBound :: "platform \<Rightarrow> json option \<Rightarrow> error + real option" where
  "lengthBound pf None = Inl TypeError"
| "lengthBound pf (Some JNull) = Inl TypeError"
| "lengthBound pf (Some (JStr s)) = Inr (Some (real (length s)))"
| "lengthBound pf (Some (JArr xs)) = Inr (Some (real (length xs)))"
| "lengthBound pf (Some (JObj fs)) =
     Inr (case member fs ''length'' of None \<Rightarrow> None | Some l \<Rightarrow> toNumber pf l)"
| "lengthBound pf (Some v) = Inr None"

text \<open>The number of indices \<open>i = 0, 1, ...\<close> with \<open>i < bound\<close>.\<close>

definition iterations :: "real option \<Rightarrow> nat" where
  "iterations bound = (case bound of None \<Rightarrow> 0 | Some r \<Rightarrow> nat \<lceil>r\<rceil>)"

text \<open>
  \<open>v[i]\<close>: the character of a string as a string of length one, the element of an
  array, the member of an object whose name is the decimal numeral of \<open>i\<close>;
  \<open>undefined\<close> beyond the end and on a boolean or a number.
\<close>

fun getIndex :: "json option \<Rightarrow> nat \<Rightarrow> error + json option" where
  "getIndex None i = Inl TypeError"
| "getIndex (Some JNull) i = Inl TypeError"
| "getIndex (Some (JStr s)) i = Inr (if i < length s then Some (JStr [s ! i]) else None)"
| "getIndex (Some (JArr xs)) i = Inr (if i < length xs then Some (xs ! i) else None)"
| "getIndex (Some (JObj fs)) i = Inr (member fs (showNat i))"
| "getIndex (Some v) i = Inr None"

text \<open>\<open>c.toUpperCase()\<close>: no JSON value but a string has a callable \<open>toUpperCase\<close>.\<close>

fun callToUpperCase :: "json option \<Rightarrow> error + string" where
  "callToUpperCase (Some (JStr c)) = Inr (toUpperCase c)"
| "callToUpperCase v = Inl TypeError"

text \<open>
  \<open>!prev\<close> is true on \<open>undefined\<close>, \<open>null\<close>, \<open>false\<close>, \<open>0\<close> and the empty string.
\<close>

fun truthy :: "json option \<Rightarrow> bool" where
  "truthy None = False"
| "truthy (Some JNull) = False"
| "truthy (Some (JBool b)) = b"
| "truthy (Some (JNum r)) = (r \<noteq> 0)"
| "truthy (Some (JStr s)) = (s \<noteq> [])"
| "truthy (Some v) = True"

text \<open>
  The property name under which \<open>rank[v]\<close> looks a value up, where it can name a
  property at all. The name of a string is the string; that of an array with one
  element is the name of the element. The names of \<open>undefined\<close>, \<open>null\<close>, booleans,
  numbers, objects and other arrays (\<open>undefined\<close>, \<open>null\<close>, \<open>true\<close>, \<open>false\<close>,
  numerals, \<open>[object Object]\<close>, the empty string and strings with commas) name no
  property of \<open>rank\<close>, its own or inherited.
\<close>

fun nameOf :: "json \<Rightarrow> string option" where
  "nameOf (JStr s) = Some s"
| "nameOf (JArr [x]) = nameOf x"
| "nameOf v = None"

definition rankTable :: "string \<Rightarrow> nat option" where
  "rankTable = map_of [(''bad'', 0), (''present'', 1), (''good'', 2)]"

text \<open>
  \<open>rank[next] > rank[prev]\<close>. Between two marks it compares their numbers. A number
  against \<open>undefined\<close> or against an inherited property is false, since the other side
  converts to \<open>NaN\<close>; so is every comparison with a value that names no property.
  Between two names that are no marks the platform decides.
\<close>

definition outranks :: "platform \<Rightarrow> json option \<Rightarrow> json option \<Rightarrow> bool" where
  "outranks pf next prev =
     (case (Option.bind next nameOf, Option.bind prev nameOf) of
        (Some a, Some b) \<Rightarrow>
          (case (rankTable a, rankTable b) of
             (Some n, Some p) \<Rightarrow> p < n
           | (None, None) \<Rightarrow> inheritedGreater pf a b
           | _ \<Rightarrow> False)
      | _ \<Rightarrow> False)"

text \<open>
  The body of the inner loop at index \<open>i\<close> of the entry \<open>g\<close>. The key \<open>ch\<close> is the
  result of \<open>toUpperCase\<close>, which is never the name of a property that the object
  \<open>ks\<close> inherits, so \<open>ks[ch]\<close> is what the loop has stored or \<open>undefined\<close>.
\<close>

definition keyStateStep_json ::
  "platform \<Rightarrow> json \<Rightarrow> nat \<Rightarrow> (string \<rightharpoonup> json) \<Rightarrow> error + (string \<rightharpoonup> json)" where
  "keyStateStep_json pf g i ks =
     bindE (getField ''word'' g) (\<lambda>w.
     bindE (getIndex w i) (\<lambda>c.
     bindE (callToUpperCase c) (\<lambda>ch.
     bindE (getField ''fb'' g) (\<lambda>f.
     bindE (getIndex f i) (\<lambda>next.
       let prev = ks ch in
       Inr (if \<not> truthy prev \<or> outranks pf next prev then ks(ch := next) else ks))))))"

text \<open>The inner loop for one entry, and the function.\<close>

definition keyStateEntry_json ::
  "platform \<Rightarrow> json \<Rightarrow> (string \<rightharpoonup> json) \<Rightarrow> error + (string \<rightharpoonup> json)" where
  "keyStateEntry_json pf g ks =
     bindE (getField ''word'' g) (\<lambda>w.
     bindE (lengthBound pf w) (\<lambda>bound.
       foldE (keyStateStep_json pf g) [0..<iterations bound] ks))"

definition computeKeyStateFromGuesses_json ::
  "platform \<Rightarrow> json list \<Rightarrow> error + (string \<rightharpoonup> json)" where
  "computeKeyStateFromGuesses_json pf gs = foldE (keyStateEntry_json pf) gs Map.empty"

text \<open>
  What \<open>JSON.stringify\<close> makes of a mark and of a guess \<open>{word, fb}\<close> of a board.
\<close>

definition fbJson :: "feedback \<Rightarrow> json" where
  "fbJson f = JStr (case f of Bad \<Rightarrow> ''bad'' | Present \<Rightarrow> ''present'' | Good \<Rightarrow> ''good'')"

definition guessJson :: "guess \<Rightarrow> json" where
  "guessJson g = JObj [(''word'', JStr (word g)), (''fb'', JArr (map fbJson (fb g)))]"

text \<open>
  One call of \<open>localStorage.setItem\<close>: the time of the call, the key, and whether the
  save was forced. The state keeps the list of these calls besides the contents of the
  storage, so that a save that writes can be told from one that does not.
\<close>

record setItemCall =
  callTime :: real
  callKey :: string
  callForced :: bool

record mode =
  key :: string
  label :: string
  seedType :: string
  rule :: "nat \<Rightarrow> bool"

definition MODES :: "mode list" where
  "MODES =
    [\<lparr>key = ''daily'', label = ''Daily'', seedType = ''daily'', rule = (\<lambda>len. 3 \<le> len \<and> len \<le> 9)\<rparr>,
     \<lparr>key = ''short'', label = ''Short'', seedType = ''5min'', rule = (\<lambda>len. 3 \<le> len \<and> len \<le> 4)\<rparr>,
     \<lparr>key = ''medium'', label = ''Medium'', seedType = ''5min'', rule = (\<lambda>len. 5 \<le> len \<and> len \<le> 6)\<rparr>,
     \<lparr>key = ''long'', label = ''Long'', seedType = ''5min'', rule = (\<lambda>len. 7 \<le> len \<and> len \<le> 9)\<rparr>]"

text \<open>
  The component's data. A board object is referred to by its id, the key under which
  \<open>boards\<close> holds it. \<open>rafHandle\<close> tells whether a frame callback of the tick loop is
  pending. \<open>messageTimer\<close> tells whether a fade-out of the message is pending.
  \<open>saveIntervalMs\<close> is never assigned after its initialisation to 700.
\<close>

record app =
  guessSet :: "string set"
  answers :: "string list"
  boards :: "string \<rightharpoonup> board"
  currentBoardId :: string
  message :: string
  messageKind :: messageKind
  messageTimer :: bool
  rafHandle :: bool
  lastSaveAt :: real
  localStorage :: "string \<rightharpoonup> stored"
  setItemCalls :: "setItemCall list"

definition saveIntervalMs :: real where
  "saveIntervalMs = 700"

text \<open>
  What a handler reads from the platform: \<open>performance.now()\<close> and
  \<open>new Date().toISOString()\<close>. A handler runs at one instant.
\<close>

record env =
  perfNow :: real
  isoNow :: string

definition currentBoard :: "app \<Rightarrow> board option" where
  "currentBoard s = boards s (currentBoardId s)"

text \<open>An assignment to fields of the board object \<open>bid\<close>.\<close>

definition updBoard :: "string \<Rightarrow> (board \<Rightarrow> board) \<Rightarrow> app \<Rightarrow> app" where
  "updBoard bid f s =
     (case boards s bid of
        None \<Rightarrow> s
      | Some b \<Rightarrow> s\<lparr>boards := (boards s)(bid \<mapsto> f b)\<rparr>)"

subsection \<open>Messaging\<close>

definition setMessage :: "string \<Rightarrow> messageKind \<Rightarrow> bool \<Rightarrow> app \<Rightarrow> app" where
  "setMessage text kind autoFade s =
     s\<lparr>message := text, messageKind := kind, messageTimer := autoFade\<rparr>"

subsection \<open>Persistence\<close>

definition storageKeyBoard :: "string \<Rightarrow> string \<Rightarrow> string" where
  "storageKeyBoard mk sk = ''speedle.board.'' @ mk @ ''.'' @ sk"

definition toSave :: "board \<Rightarrow> snapshot" where
  "toSave b =
     \<lparr>stored_modeKey = modeKey b,
      stored_modeLabel = modeLabel b,
      stored_seedKey = seedKey b,
      stored_answer = Has (answer b),
      stored_status = status b,
      stored_startedAtISO = startedAtISO b,
      stored_lastActiveISO = lastActiveISO b,
      stored_elapsedMs = Some (elapsedMs b),
      stored_finalMs = finalMs b,
      stored_currentGuess = Has (currentGuess b),
      stored_hasStarted = Has (hasStarted b),
      stored_guesses = Some (JArr (map guessJson (guesses b)))\<rparr>"

text \<open>
  \<open>saveBoardToStorage(b, {force})\<close> and \<open>saveBoardNow(b)\<close>. Every caller passes a
  board object that it holds, so the board is found under its id.
\<close>

definition saveBoardToStorage :: "env \<Rightarrow> string \<Rightarrow> bool \<Rightarrow> app \<Rightarrow> app" where
  "saveBoardToStorage e bid force s =
     (case boards s bid of
        None \<Rightarrow> s
      | Some b \<Rightarrow>
          let now = perfNow e in
          if \<not> force \<and> now - lastSaveAt s < saveIntervalMs then s
          else
            let k = storageKeyBoard (modeKey b) (seedKey b) in
            s\<lparr>lastSaveAt := now,
              localStorage := (localStorage s)(k \<mapsto> JObject (toSave b)),
              setItemCalls := setItemCalls s @
                [\<lparr>callTime = now, callKey = k, callForced = force\<rparr>]\<rparr>)"

definition saveBoardNow :: "env \<Rightarrow> string \<Rightarrow> app \<Rightarrow> app" where
  "saveBoardNow e bid s = saveBoardToStorage e bid True (s\<lparr>lastSaveAt := 0\<rparr>)"

text \<open>
  \<open>loadBoardFromStorage\<close> returns \<open>null\<close> (\<open>Inr None\<close>) or the loaded object, or throws
  what \<open>computeKeyStateFromGuesses\<close> throws on the stored guesses.
\<close>

definition loadBoardFromStorage ::
  "platform \<Rightarrow> app \<Rightarrow> string \<Rightarrow> string \<Rightarrow> error + loaded option" where
  "loadBoardFromStorage pf s mk sk =
     (let k = storageKeyBoard mk sk in
      case localStorage s k of
        None \<Rightarrow> Inr None
      | Some EmptyString \<Rightarrow> Inr None
      | Some NotJSON \<Rightarrow> Inr None
      | Some JPrimitive \<Rightarrow> Inr None
      | Some JArray \<Rightarrow> Inr None
      | Some (JObject o1) \<Rightarrow>
          (case stored_answer o1 of
             Absent \<Rightarrow> Inr None
           | OtherType \<Rightarrow> Inr None
           | Has a \<Rightarrow>
               if length a < MIN_LEN \<or> MAX_LEN < length a then Inr None
               else
                 let gs = (case stored_guesses o1 of Some (JArr xs) \<Rightarrow> xs | _ \<Rightarrow> []);
                     o2 = o1\<lparr>stored_guesses := Some (JArr gs)\<rparr>;
                     o3 = (case stored_currentGuess o2 of
                             Has c \<Rightarrow> o2
                           | _ \<Rightarrow> o2\<lparr>stored_currentGuess := Has ''''\<rparr>)
                 in bindE (computeKeyStateFromGuesses_json pf gs) (\<lambda>ks.
                      let o4 = (case stored_hasStarted o3 of
                                  Has h \<Rightarrow> o3
                                | _ \<Rightarrow> o3\<lparr>stored_hasStarted :=
                                      Has (0 < (case stored_elapsedMs o3 of None \<Rightarrow> 0 | Some x \<Rightarrow> x)
                                           \<or> 0 < length gs)\<rparr>)
                      in Inr (Some \<lparr>obj = o4, obj_keyState = ks\<rparr>))))"

subsection \<open>Timer control\<close>

definition stopTick :: "app \<Rightarrow> app" where
  "stopTick s = s\<lparr>rafHandle := False\<rparr>"

definition startTick :: "app \<Rightarrow> app" where
  "startTick s = (stopTick s)\<lparr>rafHandle := True\<rparr>"

text \<open>
  The frame callback \<open>loop\<close> of \<open>startTick\<close>. When it returns without requesting the
  next frame, no callback is pending any more.
\<close>

definition loop :: "env \<Rightarrow> app \<Rightarrow> app" where
  "loop e s =
     (case currentBoard s of
        None \<Rightarrow> s\<lparr>rafHandle := False\<rparr>
      | Some b \<Rightarrow>
          if status b \<noteq> Running then s\<lparr>rafHandle := False\<rparr>
          else
            let bid = currentBoardId s;
                s = updBoard bid (\<lambda>b. b\<lparr>elapsedMs := perfNow e - startPerfTs b\<rparr>) s;
                s = updBoard bid (\<lambda>b. b\<lparr>lastActiveISO := isoNow e\<rparr>) s;
                s = saveBoardToStorage e bid False s
            in s\<lparr>rafHandle := True\<rparr>)"

text \<open>An animation frame: the callback runs when one is pending.\<close>

definition frame :: "env \<Rightarrow> app \<Rightarrow> app" where
  "frame e s = (if rafHandle s then loop e s else s)"

definition pauseBoard :: "env \<Rightarrow> string \<Rightarrow> string \<Rightarrow> app \<Rightarrow> app" where
  "pauseBoard e bid reason s =
     (case boards s bid of
        None \<Rightarrow> s
      | Some b \<Rightarrow>
          if status b \<noteq> Running then s
          else
            let s = (if hasStarted b
                     then updBoard bid (\<lambda>b. b\<lparr>elapsedMs := perfNow e - startPerfTs b\<rparr>) s
                     else updBoard bid (\<lambda>b. b\<lparr>elapsedMs := 0\<rparr>) s);
                s = updBoard bid (\<lambda>b. b\<lparr>lastActiveISO := isoNow e\<rparr>) s;
                s = stopTick s;
                s = saveBoardNow e bid s
            in if reason \<noteq> [] then setMessage reason Info False s else s)"

text \<open>
  In \<open>resumeBoard\<close>, \<open>Number(b.elapsedMs) || 0\<close> is \<open>b.elapsedMs\<close> for every number.
\<close>

definition resumeBoard :: "env \<Rightarrow> string \<Rightarrow> app \<Rightarrow> app" where
  "resumeBoard e bid s =
     (case boards s bid of
        None \<Rightarrow> s
      | Some b \<Rightarrow>
          if status b \<noteq> Running then s
          else
            let s = updBoard bid (\<lambda>b. b\<lparr>startPerfTs := perfNow e - elapsedMs b\<rparr>) s;
                s = updBoard bid (\<lambda>b. b\<lparr>lastActiveISO := isoNow e\<rparr>) s;
                s = saveBoardToStorage e bid True s
            in if hasStarted b then startTick s else stopTick s)"

subsection \<open>Rules and input\<close>

definition findMode :: "string \<Rightarrow> mode" where
  "findMode mk = (case find (\<lambda>m. key m = mk) MODES of Some m \<Rightarrow> m | None \<Rightarrow> MODES ! 0)"

definition isValidGuessForMode :: "app \<Rightarrow> string \<Rightarrow> string \<Rightarrow> bool" where
  "isValidGuessForMode s w mk =
     (let m = findMode mk in
      if \<not> lowerAlpha w then False
      else if length w < MIN_LEN \<or> MAX_LEN < length w then False
      else if \<not> rule m (length w) then False
      else w \<in> guessSet s)"

definition solvedMessage :: "board \<Rightarrow> string" where
  "solvedMessage b =
     ''Solved in '' @ formatMMSS (case finalMs b of None \<Rightarrow> 0 | Some t \<Rightarrow> t) @
     [CHR '' '', CHR 0xB7, CHR '' ''] @ showNat (length (guesses b)) @ '' guesses''"

definition finaliseSolved :: "env \<Rightarrow> string \<Rightarrow> app \<Rightarrow> app" where
  "finaliseSolved e bid s =
     (let s = updBoard bid (\<lambda>b. b\<lparr>status := Solved\<rparr>) s;
          s = updBoard bid (\<lambda>b. b\<lparr>finalMs := Some (max 0 (elapsedMs b))\<rparr>) s;
          s = updBoard bid (\<lambda>b. b\<lparr>lastActiveISO := isoNow e\<rparr>) s;
          s = stopTick s;
          s = saveBoardNow e bid s
      in case boards s bid of
           None \<Rightarrow> s
         | Some b \<Rightarrow> setMessage (solvedMessage b) Success False s)"

definition submit :: "env \<Rightarrow> app \<Rightarrow> app" where
  "submit e s =
     (case currentBoard s of
        None \<Rightarrow> s
      | Some b \<Rightarrow>
          if status b \<noteq> Running then s
          else
            let g = normaliseWord (currentGuess b) in
            if length g \<noteq> length (answer b) then
              setMessage (''Must be '' @ showNat (length (answer b)) @ '' letters'') Warn True s
            else if \<not> isValidGuessForMode s g (modeKey b) then
              setMessage ''Not in list'' Warn True s
            else
              let bid = currentBoardId s;
                  s = (if \<not> hasStarted b then
                         let s = updBoard bid (\<lambda>b. b\<lparr>hasStarted := True\<rparr>) s;
                             s = updBoard bid (\<lambda>b. b\<lparr>startPerfTs := perfNow e\<rparr>) s;
                             s = updBoard bid (\<lambda>b. b\<lparr>elapsedMs := 0\<rparr>) s;
                             s = startTick s
                         in saveBoardNow e bid s
                       else s);
                  fb = makeFeedback g (answer b);
                  s = updBoard bid (\<lambda>b. b\<lparr>guesses := guesses b @ [\<lparr>word = g, fb = fb\<rparr>]\<rparr>) s;
                  s = updBoard bid (\<lambda>b. b\<lparr>keyState := computeKeyStateFromGuesses (guesses b)\<rparr>) s;
                  s = updBoard bid (\<lambda>b. b\<lparr>currentGuess := ''''\<rparr>) s;
                  s = saveBoardNow e bid s
              in if g = answer b then finaliseSolved e bid s else s)"

definition addChar :: "string \<Rightarrow> app \<Rightarrow> app" where
  "addChar ch s =
     (case currentBoard s of
        None \<Rightarrow> s
      | Some b \<Rightarrow>
          if status b \<noteq> Running then s
          else if \<not> singleLetter ch then s
          else if length (answer b) \<le> length (currentGuess b) then s
          else updBoard (currentBoardId s) (\<lambda>b. b\<lparr>currentGuess := currentGuess b @ toLowerCase ch\<rparr>) s)"

definition backspace :: "app \<Rightarrow> app" where
  "backspace s =
     (case currentBoard s of
        None \<Rightarrow> s
      | Some b \<Rightarrow>
          if status b \<noteq> Running then s
          else updBoard (currentBoardId s) (\<lambda>b. b\<lparr>currentGuess := butlast (currentGuess b)\<rparr>) s)"

definition clearGuess :: "app \<Rightarrow> app" where
  "clearGuess s =
     (case currentBoard s of
        None \<Rightarrow> s
      | Some b \<Rightarrow>
          if status b \<noteq> Running then s
          else updBoard (currentBoardId s) (\<lambda>b. b\<lparr>currentGuess := ''''\<rparr>) s)"

subsection \<open>Events\<close>

text \<open>
  The operations on boards as events, and a run of the application as the events
  handled one after the other: every handler runs to completion before the next.
\<close>

datatype event =
    Submit env
  | AddChar string
  | Backspace
  | ClearGuess
  | Pause env string string
  | Resume env string
  | Frame env

fun step :: "event \<Rightarrow> app \<Rightarrow> app" where
  "step (Submit e) s = submit e s"
| "step (AddChar ch) s = addChar ch s"
| "step Backspace s = backspace s"
| "step ClearGuess s = clearGuess s"
| "step (Pause e bid reason) s = pauseBoard e bid reason s"
| "step (Resume e bid) s = resumeBoard e bid s"
| "step (Frame e) s = frame e s"

definition run :: "event list \<Rightarrow> app \<Rightarrow> app" where
  "run evs s = fold step evs s"

subsection \<open>Example states\<close>

text \<open>
  A started daily board with answer \<open>apple\<close> and the guess \<open>apple\<close> typed, in an
  application whose guessable set holds \<open>apple\<close>; and the board that \<open>createNewBoard\<close>
  makes from an empty answer pool, whose answer is the fallback \<open>speed\<close>, started and
  with \<open>speed\<close> typed.
\<close>

definition exampleBoard :: board where
  "exampleBoard =
     \<lparr>modeKey = ''daily'', modeLabel = ''Daily'', seedKey = ''2024-01-01'',
      answer = ''apple'', status = Running, hasStarted = True,
      startedAtISO = ''2024-01-01T08:00:00.000Z'', lastActiveISO = ''2024-01-01T08:00:05.000Z'',
      startPerfTs = 1000, elapsedMs = 5000, finalMs = None,
      currentGuess = ''apple'', guesses = [], keyState = Map.empty\<rparr>"

definition exampleApp :: app where
  "exampleApp =
     \<lparr>guessSet = {''apple'', ''plpel'', ''grape''}, answers = [''apple''],
      boards = [''daily.2024-01-01'' \<mapsto> exampleBoard],
      currentBoardId = ''daily.2024-01-01'',
      message = '''', messageKind = Info, messageTimer = False,
      rafHandle = True, lastSaveAt = 5900,
      localStorage = Map.empty, setItemCalls = []\<rparr>"

definition exampleEnv :: env where
  "exampleEnv = \<lparr>perfNow = 6000, isoNow = ''2024-01-01T08:00:06.000Z''\<rparr>"

definition fallbackBoard :: board where
  "fallbackBoard = exampleBoard\<lparr>answer := ''speed'', currentGuess := ''speed''\<rparr>"

definition fallbackApp :: app where
  "fallbackApp =
     exampleApp\<lparr>answers := [],
       boards := [''daily.2024-01-01'' \<mapsto> fallbackBoard]\<rparr>"

definition solvedBoard :: board where
  "solvedBoard = exampleBoard\<lparr>status := Solved, finalMs := Some 5000, currentGuess := ''''\<rparr>"

definition solvedApp :: app where
  "solvedApp = exampleApp\<lparr>boards := [''daily.2024-01-01'' \<mapsto> solvedBoard], rafHandle := False\<rparr>"

text \<open>
  Two states of a board that agree on the reference instant, the status and the started
  flag: what a frame of the tick loop leaves alone.
\<close>

definition sameClock :: "board \<Rightarrow> board \<Rightarrow> bool" where
  "sameClock b b' \<longleftrightarrow>
     startPerfTs b' = startPerfTs b \<and> status b' = status b \<and> hasStarted b' = hasStarted b"

subsection \<open>Reading a stored object\<close>

text \<open>
  The guesses of a stored object as the loader takes them: the entries of the stored
  array, or none when the field is not an array. And \<open>Number(obj.elapsedMs) || 0\<close>.
\<close>

definition guessesOrEmpty :: "snapshot \<Rightarrow> json list" where
  "guessesOrEmpty o1 = (case stored_guesses o1 of Some (JArr xs) \<Rightarrow> xs | _ \<Rightarrow> [])"

definition elapsedOr0 :: "snapshot \<Rightarrow> real" where
  "elapsedOr0 o1 = (case stored_elapsedMs o1 of None \<Rightarrow> 0 | Some x \<Rightarrow> x)"

definition isBoolean :: "bool jsfield \<Rightarrow> bool" where
  "isBoolean f = (case f of Has h \<Rightarrow> True | _ \<Rightarrow> False)"


text \<open>
  Example items. A stored object with a played guess and no \<open>hasStarted\<close> field; the
  same with an answer of ten letters; the same with a number for \<open>guesses\<close> and for
  \<open>currentGuess\<close>; the same with \<open>null\<close> as its only guess, and with a guess that has
  no \<open>fb\<close>; and an application whose storage holds a given item for the daily board.
  \<open>examplePlatform\<close> stands for the platform where no example consults it.
\<close>

definition exampleGuess :: guess where
  "exampleGuess = \<lparr>word = ''plpel'', fb = [Present, Present, Good, Present, Bad]\<rparr>"

definition exampleSnapshot :: snapshot where
  "exampleSnapshot =
     (toSave exampleBoard)\<lparr>stored_hasStarted := Absent, stored_elapsedMs := Some 0,
        stored_guesses := Some (JArr [guessJson exampleGuess])\<rparr>"



definition nullGuessSnapshot :: snapshot where
  "nullGuessSnapshot = exampleSnapshot\<lparr>stored_guesses := Some (JArr [JNull])\<rparr>"

definition noFbSnapshot :: snapshot where
  "noFbSnapshot = exampleSnapshot\<lparr>stored_guesses := Some (JArr [JObj [(''word'', JStr ''ab'')]])\<rparr>"

definition storedApp :: "stored \<Rightarrow> app" where
  "storedApp item =
     exampleApp\<lparr>localStorage := [storageKeyBoard ''daily'' ''2024-01-01'' \<mapsto> item]\<rparr>"


subsection \<open>The save throttle over a run\<close>

text \<open>
  The instant at which an event is handled, for the events whose handlers read the
  clock; and a list of events whose instants never decrease, from the instant \<open>t0\<close> on,
  as the readings of the monotonic clock \<open>performance.now()\<close> do.
\<close>

fun timeOf :: "event \<Rightarrow> real option" where
  "timeOf (Submit e) = Some (perfNow e)"
| "timeOf (AddChar ch) = None"
| "timeOf Backspace = None"
| "timeOf ClearGuess = None"
| "timeOf (Pause e bid reason) = Some (perfNow e)"
| "timeOf (Resume e bid) = Some (perfNow e)"
| "timeOf (Frame e) = Some (perfNow e)"

fun timed :: "real \<Rightarrow> event list \<Rightarrow> bool" where
  "timed t0 [] = True"
| "timed t0 (ev # evs) =
     (case timeOf ev of
        None \<Rightarrow> timed t0 evs
      | Some t \<Rightarrow> t0 \<le> t \<and> timed t evs)"

text \<open>
  A list of \<open>setItem\<close> calls in which every call of a save that was not forced comes at
  least \<open>saveIntervalMs\<close> after every earlier call.
\<close>

fun spaced :: "setItemCall list \<Rightarrow> bool" where
  "spaced [] = True"
| "spaced (c # cs) =
     (list_all (\<lambda>d. callForced d \<or> callTime c + saveIntervalMs \<le> callTime d) cs \<and> spaced cs)"

text \<open>
  The invariant of the throttle at the instant \<open>now\<close>: the last save is not in the
  future, no recorded call is later than \<open>lastSaveAt\<close>, and the calls are spaced.
\<close>

definition throttled :: "real \<Rightarrow> app \<Rightarrow> bool" where
  "throttled now s \<longleftrightarrow>
     lastSaveAt s \<le> now \<and>
     list_all (\<lambda>c. callTime c \<le> lastSaveAt s) (setItemCalls s) \<and>
     spaced (setItemCalls s)"

text \<open>
  A run of the example application: frames of the tick loop at 6000, 6700 and 7000, a
  pause at 7100, a frame at 7150, a resume at 7200, and frames at 7500 and 7900.
\<close>

definition exampleRun :: "event list" where
  "exampleRun =
     [Frame (exampleEnv\<lparr>perfNow := 6000\<rparr>), Frame (exampleEnv\<lparr>perfNow := 6700\<rparr>),
      Frame (exampleEnv\<lparr>perfNow := 7000\<rparr>),
      Pause (exampleEnv\<lparr>perfNow := 7100\<rparr>) ''daily.2024-01-01'' '''',
      Frame (exampleEnv\<lparr>perfNow := 7150\<rparr>),
      Resume (exampleEnv\<lparr>perfNow := 7200\<rparr>) ''daily.2024-01-01'',
      Frame (exampleEnv\<lparr>perfNow := 7500\<rparr>), Frame (exampleEnv\<lparr>perfNow := 7900\<rparr>)]"

text \<open>
  The example application with a second board, of the mode \<open>short\<close>, and a run on it:
  a pause of the daily board at 7100 and its resume at 7200.
\<close>

definition shortBoard :: board where
  "shortBoard =
     exampleBoard\<lparr>modeKey := ''short'', modeLabel := ''Short'', seedKey := ''2024-01-01 08:00'',
       answer := ''cat'', currentGuess := ''''\<rparr>"

definition twoBoardApp :: app where
  "twoBoardApp =
     exampleApp\<lparr>boards := (boards exampleApp)(''short.2024-01-01 08:00'' \<mapsto> shortBoard)\<rparr>"

definition pauseResumeRun :: "event list" where
  "pauseResumeRun =
     [Pause (exampleEnv\<lparr>perfNow := 7100\<rparr>) ''daily.2024-01-01'' '''',
      Resume (exampleEnv\<lparr>perfNow := 7200\<rparr>) ''daily.2024-01-01'']"

section \<open>Properties of the seeded selection\<close>

lemma bitLength_nonpos: "n \<le> 0 \<Longrightarrow> bitLength n = 0"
  by (simp add: bitLength.simps [of n])

lemma bitLength_lower: "0 < n \<Longrightarrow> 2 ^ (bitLength n - 1) \<le> n"
proof (induction n rule: bitLength.induct)
  case (1 n)
  show ?case
  proof (cases "n div 2 \<le> 0")
    case True
    with "1.prems" have "bitLength n = Suc 0"
      using bitLength_nonpos [of "n div 2"] by (simp add: bitLength.simps [of n])
    with "1.prems" show ?thesis by simp
  next
    case False
    then have pos: "0 < n div 2" by simp
    with "1.IH" "1.prems" have ih: "2 ^ (bitLength (n div 2) - 1) \<le> n div 2" by simp
    from pos have "0 < bitLength (n div 2)"
      by (simp add: bitLength.simps [of "n div 2"])
    then have "(2::int) ^ (bitLength n - 1) = 2 * 2 ^ (bitLength (n div 2) - 1)"
      using "1.prems" by (simp add: bitLength.simps [of n] power_Suc [symmetric] del: power_Suc)
    with ih show ?thesis by simp
  qed
qed

lemma bitLength_upper: "n < 2 ^ bitLength n"
proof (induction n rule: bitLength.induct)
  case (1 n)
  show ?case
  proof (cases "n \<le> 0")
    case True
    then show ?thesis by (simp add: bitLength.simps [of n])
  next
    case False
    with "1.IH" have "n div 2 < 2 ^ bitLength (n div 2)" by simp
    then have "n < 2 * 2 ^ bitLength (n div 2)" by simp
    with False show ?thesis by (simp add: bitLength.simps [of n])
  qed
qed

text \<open>
  Rounding to 53 bits cannot carry the product up to the pool's length: a product of
  \<open>e + 53\<close> bits with \<open>k < 2 ^ 32\<close> needs \<open>n > 2 ^ e\<close>, while rounding adds less
  than \<open>2 ^ e\<close> and \<open>k * n + n \<le> 2 ^ 32 * n\<close>.
\<close>

lemma round53_bounds:
  assumes k: "0 \<le> k" "k < 2 ^ 32" and n: "0 < n"
  shows "0 \<le> round53 (k * n) \<and> round53 (k * n) < 2 ^ 32 * n"
proof (cases "k * n < 2 ^ 53")
  case True
  from k n have "k * n < 2 ^ 32 * n" by simp
  moreover from k n have "0 \<le> k * n" by simp
  ultimately show ?thesis using True by (simp add: round53_def)
next
  case False
  define N where "N = k * n"
  define e where "e = bitLength N - 53"
  define q where "q = N div 2 ^ e"
  define r where "r = N mod 2 ^ e"
  from False have big: "2 ^ 53 \<le> N" by (simp add: N_def)
  then have Npos: "0 < N" by (rule less_le_trans [rotated]) simp
  have "(2::int) ^ 53 < 2 ^ bitLength N"
    using big bitLength_upper [of N] by linarith
  then have "53 < bitLength N" by (simp only: power_strict_increasing_iff)
  then have bl: "bitLength N - 1 = e + 52" by (simp add: e_def)
  from bitLength_lower [OF Npos] bl have "2 ^ (e + 52) \<le> N" by simp
  also from k n have "N < 2 ^ 32 * n" by (simp add: N_def)
  finally have "(2::int) ^ e * 2 ^ 52 < 2 ^ 32 * n" by (simp add: power_add)
  then have "(2::int) ^ e * 2 ^ 20 * 2 ^ 32 < n * 2 ^ 32" by (simp add: mult.commute)
  then have "(2::int) ^ e * 2 ^ 20 < n" by (simp only: mult_less_cancel_right) simp
  moreover have "(2::int) ^ e \<le> 2 ^ e * 2 ^ 20" by simp
  ultimately have en: "2 ^ e < n" by linarith
  have qe: "q * 2 ^ e \<le> N"
    unfolding q_def
    by (metis mult.commute mult_div_mod_eq Euclidean_Rings.pos_mod_sign zero_less_numeral
        zero_less_power le_add_same_cancel1)
  have q0: "0 \<le> q" unfolding q_def using Npos by (simp add: pos_imp_zdiv_nonneg_iff)
  have "(k + 1) * n \<le> 2 ^ 32 * n" using k n by (intro mult_right_mono) simp_all
  then have kn: "N + n \<le> 2 ^ 32 * n" by (simp add: N_def algebra_simps)
  have up: "(q + 1) * 2 ^ e < 2 ^ 32 * n" using qe en kn by (simp add: algebra_simps)
  have lo: "0 \<le> q * 2 ^ e" using q0 by simp
  have "q * 2 ^ e \<le> (q + 1) * 2 ^ e" by (simp add: algebra_simps)
  with up have up': "q * 2 ^ e < 2 ^ 32 * n" by linarith
  have lo': "0 \<le> (q + 1) * 2 ^ e" using q0 by simp
  have "round53 N = (if 2 ^ e < 2 * r \<or> (2 * r = 2 ^ e \<and> odd q) then q + 1 else q) * 2 ^ e"
    using False by (simp add: round53_def N_def [symmetric] Let_def e_def q_def r_def)
  then show ?thesis using up up' lo lo' unfolding N_def [symmetric] by presburger
qed

lemma floorScaled_range:
  assumes "0 \<le> k" "k < 2 ^ 32" "0 < n"
  shows "0 \<le> floorScaled k n \<and> floorScaled k n < n"
proof -
  from round53_bounds [OF assms]
  have a: "0 \<le> round53 (k * n)" and b: "round53 (k * n) < n * 2 ^ 32"
    by (simp_all add: mult.commute)
  from a have "0 \<le> round53 (k * n) div 2 ^ 32" by (simp add: pos_imp_zdiv_nonneg_iff)
  moreover from b have "round53 (k * n) div 2 ^ 32 < n" by simp
  ultimately show ?thesis by (simp add: floorScaled_def)
qed

lemma mulberry32_next_range:
  "0 \<le> fst (mulberry32_next a) \<and> fst (mulberry32_next a) < 2 ^ 32"
proof -
  have "uint w < 2 ^ 32" for w :: "32 word" using uint_bounded [of w] by simp
  then show ?thesis by (simp add: mulberry32_next_def Let_def)
qed

text \<open>
  Claim C1. For every seed string \<open>s\<close> and pool \<open>p\<close>: on the empty pool
  \<open>pickSeededWord\<close> returns the fallback word \<open>speed\<close>; on a non-empty pool it returns a
  word (never \<open>undefined\<close>), and that word is a member of the pool. The result is a
  function of \<open>s\<close> and \<open>p\<close> alone: the generator is created from the hash of \<open>s\<close> inside
  the call and is called once, so no state outlives the call and equal arguments give
  the equal word.
\<close>

theorem pickSeededWord_member:
  "(p = [] \<longrightarrow> pickSeededWord s p = Some ''speed'') \<and>
   (p \<noteq> [] \<longrightarrow> (\<exists>w. pickSeededWord s p = Some w \<and> w \<in> set p))"
proof (cases "p = []")
  case True
  then show ?thesis by (simp add: pickSeededWord_def)
next
  case False
  define idx where "idx =
    floorScaled (fst (mulberry32_next (mulberry32 (hashStringToSeed s)))) (int (length p))"
  from False have "0 < int (length p)" by simp
  with mulberry32_next_range floorScaled_range
  have r: "0 \<le> idx \<and> idx < int (length p)" unfolding idx_def by blast
  then have "nat idx < length p" by linarith
  then have "p ! nat idx \<in> set p" by simp
  moreover have "pickSeededWord s p = Some (p ! nat idx)"
    using False r by (simp add: pickSeededWord_def Let_def idx_def [symmetric])
  ultimately show ?thesis using False by simp
qed

theorem pickSeededWord_member_witness:
  "pickSeededWord ''daily:2024-01-01'' [] = Some ''speed'' \<and>
   pickSeededWord ''daily:2024-01-01'' [''abc'', ''def'', ''ghi''] = Some ''def'' \<and>
   (\<exists>w. pickSeededWord ''daily:2024-01-01'' [''abc'', ''def'', ''ghi''] = Some w \<and>
      w \<in> set [''abc'', ''def'', ''ghi''])"
proof -
  have "pickSeededWord ''daily:2024-01-01'' [''abc'', ''def'', ''ghi''] = Some ''def''"
    by code_simp
  then show ?thesis
    using pickSeededWord_member [of "[]" "''daily:2024-01-01''"]
      pickSeededWord_member [of "[''abc'', ''def'', ''ghi'']" "''daily:2024-01-01''"]
    by simp
qed

section \<open>Properties of the scorer\<close>

lemma countOr0_upd: "countOr0 (m(k \<mapsto> v)) c = (if c = k then v else countOr0 m c)"
  by (simp add: countOr0_def)

lemma countOr0_empty: "countOr0 Map.empty c = 0"
  by (simp add: countOr0_def)

lemma filter_upt_cong:
  "(\<And>i. i < n \<Longrightarrow> P i = Q i) \<Longrightarrow> filter P [0..<n] = filter Q [0..<n]"
  by (rule filter_cong) auto

lemma count_list_index: "count_list xs c = length (filter (\<lambda>i. xs ! i = c) [0..<length xs])"
proof (induction xs rule: rev_induct)
  case Nil
  then show ?case by simp
next
  case (snoc x xs)
  have "filter (\<lambda>i. (xs @ [x]) ! i = c) [0..<length xs] = filter (\<lambda>i. xs ! i = c) [0..<length xs]"
    by (rule filter_upt_cong) (simp add: nth_append)
  with snoc show ?case by simp
qed

lemma good_pos_eq:
  "(r = Good) = (x = y) \<Longrightarrow> ((x = c \<and> r \<noteq> Bad) \<and> r = Good) = (y = c \<and> x = y)"
  by (cases r) auto

lemma length_filter_split:
  "length (filter (\<lambda>i. P i \<and> R i) xs) + length (filter (\<lambda>i. P i \<and> \<not> R i) xs) = length (filter P xs)"
  by (induction xs) auto

lemma inv1_init: "inv1 g a 0 (replicate (length g) Bad, Map.empty)"
  by (simp add: inv1_def countOr0_empty)

lemma inv1_step:
  assumes "inv1 g a k st"
  shows "inv1 g a (Suc k) (pass1 g a k st)"
proof (cases st)
  case (Pair res counts)
  show ?thesis
  proof (cases "k < length g \<and> g ! k = a ! k")
    case True
    with assms Pair show ?thesis
      by (auto simp: inv1_def pass1_def nth_list_update less_Suc_eq)
  next
    case False
    with assms Pair show ?thesis
      by (auto simp: inv1_def pass1_def countOr0_upd less_Suc_eq)
  qed
qed

lemma inv1_fold: "inv1 g a k (fold (pass1 g a) [0..<k] (replicate (length g) Bad, Map.empty))"
  by (induction k) (simp_all add: inv1_init inv1_step)

lemma inv2_init: "length (fst st1) = length g \<Longrightarrow> inv2 g st1 0 st1"
  by (simp add: inv2_def)

lemma inv2_step:
  assumes inv: "inv2 g st1 k st" and k: "k < length g"
    and np: "\<forall>i<length g. fst st1 ! i \<noteq> Present"
  shows "inv2 g st1 (Suc k) (pass2 g k st)"
proof (cases st)
  case (Pair res counts)
  from inv Pair have len: "length res = length g"
    and good: "\<forall>i<length g. (res ! i = Good) = (fst st1 ! i = Good)"
    and rest: "\<forall>i<length g. k \<le> i \<longrightarrow> res ! i = fst st1 ! i"
    and cnt: "\<And>c. length (filter (\<lambda>i. g ! i = c \<and> res ! i = Present) [0..<k]) + countOr0 counts c
          = countOr0 (snd st1) c"
    by (simp_all add: inv2_def)
  from rest k np have resk: "res ! k \<noteq> Present" by simp
  show ?thesis
  proof (cases "res ! k \<noteq> Good \<and> 0 < countOr0 counts (g ! k)")
    case False
    then have "pass2 g k st = st" by (auto simp: pass2_def Pair Let_def)
    moreover have "inv2 g st1 (Suc k) st"
      using inv resk rest by (auto simp: inv2_def Pair)
    ultimately show ?thesis by simp
  next
    case True
    then have eq: "pass2 g k st = (res[k := Present], counts(g ! k \<mapsto> countOr0 counts (g ! k) - 1))"
      by (simp add: pass2_def Pair Let_def)
    have f: "filter (\<lambda>i. g ! i = c \<and> res[k := Present] ! i = Present) [0..<k]
        = filter (\<lambda>i. g ! i = c \<and> res ! i = Present) [0..<k]" for c
      by (rule filter_upt_cong) simp
    have c4: "length (filter (\<lambda>i. g ! i = c \<and> res[k := Present] ! i = Present) [0..<Suc k])
          + countOr0 (counts(g ! k \<mapsto> countOr0 counts (g ! k) - 1)) c = countOr0 (snd st1) c" for c
      using cnt [of c] True k len by (auto simp: f countOr0_upd)
    have c2: "\<forall>i<length g. (res[k := Present] ! i = Good) = (fst st1 ! i = Good)"
      using good True rest k len by (auto simp: nth_list_update)
    have c3: "\<forall>i<length g. Suc k \<le> i \<longrightarrow> res[k := Present] ! i = fst st1 ! i"
      using rest by (auto simp: nth_list_update)
    show ?thesis unfolding eq inv2_def using len c2 c3 c4 by simp
  qed
qed

lemma inv2_fold:
  assumes "length (fst st1) = length g" "\<forall>i<length g. fst st1 ! i \<noteq> Present" "k \<le> length g"
  shows "inv2 g st1 k (fold (pass2 g) [0..<k] st1)"
  using assms(3)
proof (induction k)
  case 0
  then show ?case by (simp add: inv2_init assms(1))
next
  case (Suc k)
  then show ?case by (simp add: inv2_step assms(2))
qed

lemma inv2_present:
  assumes "inv2 g st1 k st"
  shows "length (filter (\<lambda>i. g ! i = c \<and> fst st ! i = Present) [0..<k]) \<le> countOr0 (snd st1) c"
proof -
  from assms have "length (filter (\<lambda>i. g ! i = c \<and> fst st ! i = Present) [0..<k])
      + countOr0 (snd st) c = countOr0 (snd st1) c"
    by (simp add: inv2_def)
  then show ?thesis by linarith
qed

lemma makeFeedback_length: "length (makeFeedback g a) = length g"
proof -
  let ?st1 = "fold (pass1 g a) [0..<length a] (replicate (length g) Bad, Map.empty)"
  have i1: "inv1 g a (length a) ?st1" by (rule inv1_fold)
  then have "inv2 g ?st1 (length g) (fold (pass2 g) [0..<length g] ?st1)"
    by (intro inv2_fold) (simp_all add: inv1_def)
  then show ?thesis by (simp add: makeFeedback_def inv2_def)
qed

lemma marksFor_le:
  assumes eq: "length g = length a"
  shows "marksFor c g (makeFeedback g a) \<le> count_list a c"
proof -
  let ?n = "length g"
  let ?st1 = "fold (pass1 g a) [0..<length a] (replicate ?n Bad, Map.empty)"
  let ?st2 = "fold (pass2 g) [0..<?n] ?st1"
  let ?res = "makeFeedback g a"
  have res: "?res = fst ?st2" by (simp add: makeFeedback_def)
  have i1: "inv1 g a (length a) ?st1" by (rule inv1_fold)
  then have i2: "inv2 g ?st1 ?n ?st2"
    by (intro inv2_fold) (simp_all add: inv1_def)
  have good: "i < ?n \<Longrightarrow> (?res ! i = Good) = (g ! i = a ! i)" for i
    using i1 i2 eq by (simp add: inv1_def inv2_def res)
  have "marksFor c g ?res =
      length (filter (\<lambda>i. (g ! i = c \<and> ?res ! i \<noteq> Bad) \<and> ?res ! i = Good) [0..<?n])
    + length (filter (\<lambda>i. (g ! i = c \<and> ?res ! i \<noteq> Bad) \<and> ?res ! i \<noteq> Good) [0..<?n])"
    unfolding marksFor_def by (rule length_filter_split [symmetric])
  also have "filter (\<lambda>i. (g ! i = c \<and> ?res ! i \<noteq> Bad) \<and> ?res ! i = Good) [0..<?n]
      = filter (\<lambda>i. a ! i = c \<and> g ! i = a ! i) [0..<?n]"
  proof (rule filter_upt_cong)
    fix i assume i: "i < ?n"
    show "((g ! i = c \<and> ?res ! i \<noteq> Bad) \<and> ?res ! i = Good) = (a ! i = c \<and> g ! i = a ! i)"
      by (rule good_pos_eq) (rule good [OF i])
  qed
  also have "filter (\<lambda>i. (g ! i = c \<and> ?res ! i \<noteq> Bad) \<and> ?res ! i \<noteq> Good) [0..<?n]
      = filter (\<lambda>i. g ! i = c \<and> ?res ! i = Present) [0..<?n]"
    by (rule filter_upt_cong) (metis feedback.exhaust feedback.distinct)
  also have "length (filter (\<lambda>i. g ! i = c \<and> ?res ! i = Present) [0..<?n]) \<le> countOr0 (snd ?st1) c"
    unfolding res by (rule inv2_present [OF i2])
  also have "countOr0 (snd ?st1) c = length (filter (\<lambda>i. a ! i = c \<and> \<not> g ! i = a ! i) [0..<?n])"
  proof -
    have "countOr0 (snd ?st1) c =
        length (filter (\<lambda>i. a ! i = c \<and> \<not> (i < length g \<and> g ! i = a ! i)) [0..<?n])"
      using i1 eq by (simp add: inv1_def)
    also have "filter (\<lambda>i. a ! i = c \<and> \<not> (i < length g \<and> g ! i = a ! i)) [0..<?n]
        = filter (\<lambda>i. a ! i = c \<and> \<not> g ! i = a ! i) [0..<?n]"
      by (rule filter_upt_cong) simp
    finally show ?thesis .
  qed
  also have "length (filter (\<lambda>i. a ! i = c \<and> g ! i = a ! i) [0..<?n])
      + length (filter (\<lambda>i. a ! i = c \<and> \<not> g ! i = a ! i) [0..<?n]) = count_list a c"
    by (simp add: length_filter_split count_list_index eq)
  finally show ?thesis by simp
qed

text \<open>
  Claim C2, as the code computes it. Scoring the guess \<open>plpel\<close> against the answer
  \<open>apple\<close> gives present, present, correct, present, absent: the third letter \<open>p\<close>
  matches in place, \<open>e\<close> is in the answer, and the second \<open>l\<close> finds the single
  \<open>l\<close> of the answer already used.
\<close>

theorem makeFeedback_plpel_apple:
  "makeFeedback ''plpel'' ''apple'' = [Present, Present, Good, Present, Bad]"
  by code_simp

text \<open>
  The feedback stated for this example, present, present, absent, correct, present, is
  not what the scorer returns.
\<close>

theorem makeFeedback_plpel_apple_counterexample:
  "makeFeedback ''plpel'' ''apple'' \<noteq> [Present, Present, Bad, Good, Present]"
proof -
  have "makeFeedback ''plpel'' ''apple'' = [Present, Present, Good, Present, Bad]"
    by code_simp
  then show ?thesis by simp
qed

text \<open>
  Claim C3. For a guess and an answer of equal length and every letter \<open>c\<close>, the number
  of positions of the guess that hold \<open>c\<close> and are marked correct or present is at most
  the number of occurrences of \<open>c\<close> in the answer. (Lower case is not needed.)
\<close>

theorem makeFeedback_marks_bounded:
  "length g = length a \<Longrightarrow> marksFor c g (makeFeedback g a) \<le> count_list a c"
  by (rule marksFor_le)

theorem makeFeedback_marks_bounded_witness:
  "length ''plpel'' = length ''apple'' \<and>
   marksFor CHR ''p'' ''plpel'' (makeFeedback ''plpel'' ''apple'') = 2 \<and>
   count_list ''apple'' CHR ''p'' = 2 \<and>
   marksFor CHR ''p'' ''plpel'' (makeFeedback ''plpel'' ''apple'') \<le> count_list ''apple'' CHR ''p''"
proof -
  have "marksFor CHR ''p'' ''plpel'' (makeFeedback ''plpel'' ''apple'') = 2"
    by code_simp
  moreover have "count_list ''apple'' CHR ''p'' = 2" by simp
  ultimately show ?thesis
    using makeFeedback_marks_bounded [of "''plpel''" "''apple''" "CHR ''p''"] by simp
qed

section \<open>Properties of the board operations\<close>

lemma updBoard_Some:
  "boards s bid = Some b \<Longrightarrow> updBoard bid f s = s\<lparr>boards := (boards s)(bid \<mapsto> f b)\<rparr>"
  by (simp add: updBoard_def)

lemma updBoard_fields [simp]:
  "currentBoardId (updBoard bid f s) = currentBoardId s"
  "guessSet (updBoard bid f s) = guessSet s"
  "lastSaveAt (updBoard bid f s) = lastSaveAt s"
  "localStorage (updBoard bid f s) = localStorage s"
  "setItemCalls (updBoard bid f s) = setItemCalls s"
  "rafHandle (updBoard bid f s) = rafHandle s"
  "message (updBoard bid f s) = message s"
  "messageKind (updBoard bid f s) = messageKind s"
  "messageTimer (updBoard bid f s) = messageTimer s"
  by (simp_all add: updBoard_def split: option.splits)

lemma boards_updBoard:
  "boards (updBoard bid f s) x = (if x = bid then map_option f (boards s bid) else boards s x)"
  by (simp add: updBoard_def split: option.splits)

lemma saveBoardToStorage_fields [simp]:
  "boards (saveBoardToStorage e bid force s) = boards s"
  "currentBoardId (saveBoardToStorage e bid force s) = currentBoardId s"
  "guessSet (saveBoardToStorage e bid force s) = guessSet s"
  "rafHandle (saveBoardToStorage e bid force s) = rafHandle s"
  "message (saveBoardToStorage e bid force s) = message s"
  "messageKind (saveBoardToStorage e bid force s) = messageKind s"
  "messageTimer (saveBoardToStorage e bid force s) = messageTimer s"
  by (simp_all add: saveBoardToStorage_def Let_def split: option.splits)

lemma saveBoardNow_fields [simp]:
  "boards (saveBoardNow e bid s) = boards s"
  "currentBoardId (saveBoardNow e bid s) = currentBoardId s"
  "guessSet (saveBoardNow e bid s) = guessSet s"
  "rafHandle (saveBoardNow e bid s) = rafHandle s"
  "message (saveBoardNow e bid s) = message s"
  "messageKind (saveBoardNow e bid s) = messageKind s"
  "messageTimer (saveBoardNow e bid s) = messageTimer s"
  by (simp_all add: saveBoardNow_def)

lemma tick_fields [simp]:
  "boards (stopTick s) = boards s"
  "boards (startTick s) = boards s"
  "currentBoardId (stopTick s) = currentBoardId s"
  "currentBoardId (startTick s) = currentBoardId s"
  "guessSet (stopTick s) = guessSet s"
  "guessSet (startTick s) = guessSet s"
  "lastSaveAt (stopTick s) = lastSaveAt s"
  "lastSaveAt (startTick s) = lastSaveAt s"
  "localStorage (stopTick s) = localStorage s"
  "localStorage (startTick s) = localStorage s"
  "setItemCalls (stopTick s) = setItemCalls s"
  "setItemCalls (startTick s) = setItemCalls s"
  "rafHandle (stopTick s) = False"
  "rafHandle (startTick s) = True"
  by (simp_all add: stopTick_def startTick_def)

lemma setMessage_fields [simp]:
  "boards (setMessage t k a s) = boards s"
  "currentBoardId (setMessage t k a s) = currentBoardId s"
  "guessSet (setMessage t k a s) = guessSet s"
  "lastSaveAt (setMessage t k a s) = lastSaveAt s"
  "localStorage (setMessage t k a s) = localStorage s"
  "setItemCalls (setMessage t k a s) = setItemCalls s"
  "rafHandle (setMessage t k a s) = rafHandle s"
  by (simp_all add: setMessage_def)

lemma boards_finaliseSolved:
  "boards (finaliseSolved e x s) bid =
     (if bid = x then map_option (\<lambda>b. b\<lparr>status := Solved, finalMs := Some (max 0 (elapsedMs b)),
         lastActiveISO := isoNow e\<rparr>) (boards s x) else boards s bid)"
  by (cases "boards s x") (simp_all add: finaliseSolved_def Let_def boards_updBoard)

lemma other_pauseBoard: "x \<noteq> bid \<Longrightarrow> boards (pauseBoard e x r s) bid = boards s bid"
  by (simp add: pauseBoard_def Let_def boards_updBoard split: option.splits)

lemma other_resumeBoard: "x \<noteq> bid \<Longrightarrow> boards (resumeBoard e x s) bid = boards s bid"
  by (simp add: resumeBoard_def Let_def boards_updBoard split: option.splits)

lemma other_submit: "currentBoardId s \<noteq> bid \<Longrightarrow> boards (submit e s) bid = boards s bid"
  by (simp add: submit_def Let_def boards_updBoard boards_finaliseSolved split: option.splits)

lemma other_addChar: "currentBoardId s \<noteq> bid \<Longrightarrow> boards (addChar ch s) bid = boards s bid"
  by (simp add: addChar_def boards_updBoard split: option.splits)

lemma other_backspace: "currentBoardId s \<noteq> bid \<Longrightarrow> boards (backspace s) bid = boards s bid"
  by (simp add: backspace_def boards_updBoard split: option.splits)

lemma other_clearGuess: "currentBoardId s \<noteq> bid \<Longrightarrow> boards (clearGuess s) bid = boards s bid"
  by (simp add: clearGuess_def boards_updBoard split: option.splits)

lemma other_loop: "currentBoardId s \<noteq> bid \<Longrightarrow> boards (loop e s) bid = boards s bid"
  by (simp add: loop_def Let_def boards_updBoard split: option.splits)

lemma terminal_ops:
  assumes "boards s bid = Some b" "status b \<noteq> Running"
  shows "pauseBoard e bid r s = s" "resumeBoard e bid s = s"
    "currentBoardId s = bid \<Longrightarrow> submit e s = s"
    "currentBoardId s = bid \<Longrightarrow> addChar ch s = s"
    "currentBoardId s = bid \<Longrightarrow> backspace s = s"
    "currentBoardId s = bid \<Longrightarrow> clearGuess s = s"
    "currentBoardId s = bid \<Longrightarrow> boards (loop e s) = boards s"
  using assms
  by (simp_all add: pauseBoard_def resumeBoard_def submit_def addChar_def backspace_def
      clearGuess_def loop_def currentBoard_def)

lemma step_terminal:
  assumes b: "boards s bid = Some b" and t: "status b \<noteq> Running"
  shows "boards (step ev s) bid = Some b"
proof (cases ev)
  case (Submit e)
  show ?thesis
  proof (cases "currentBoardId s = bid")
    case True
    with terminal_ops(3) [OF b t] Submit b show ?thesis by simp
  next
    case False
    with other_submit Submit b show ?thesis by simp
  qed
next
  case (AddChar ch)
  show ?thesis
  proof (cases "currentBoardId s = bid")
    case True
    with terminal_ops(4) [OF b t] AddChar b show ?thesis by simp
  next
    case False
    with other_addChar AddChar b show ?thesis by simp
  qed
next
  case Backspace
  show ?thesis
  proof (cases "currentBoardId s = bid")
    case True
    with terminal_ops(5) [OF b t] Backspace b show ?thesis by simp
  next
    case False
    with other_backspace Backspace b show ?thesis by simp
  qed
next
  case ClearGuess
  show ?thesis
  proof (cases "currentBoardId s = bid")
    case True
    with terminal_ops(6) [OF b t] ClearGuess b show ?thesis by simp
  next
    case False
    with other_clearGuess ClearGuess b show ?thesis by simp
  qed
next
  case (Pause e x r)
  show ?thesis
  proof (cases "x = bid")
    case True
    with terminal_ops(1) [OF b t] Pause b show ?thesis by simp
  next
    case False
    with other_pauseBoard Pause b show ?thesis by simp
  qed
next
  case (Resume e x)
  show ?thesis
  proof (cases "x = bid")
    case True
    with terminal_ops(2) [OF b t] Resume b show ?thesis by simp
  next
    case False
    with other_resumeBoard Resume b show ?thesis by simp
  qed
next
  case (Frame e)
  show ?thesis
  proof (cases "currentBoardId s = bid")
    case True
    with terminal_ops(7) [OF b t] Frame b show ?thesis by (simp add: frame_def)
  next
    case False
    with other_loop Frame b show ?thesis by (simp add: frame_def)
  qed
qed

text \<open>
  Claim C6. A board whose status is not running (solved or failed) is left as it is by
  every run of the operations submit, addChar, backspace, clearGuess, pause and resume,
  on this board or on any other, and by the frames of the tick loop: the board object is
  unchanged, so its status, \<open>elapsedMs\<close> and \<open>finalMs\<close> are the same for ever.
\<close>

theorem terminal_board_frozen:
  "boards s bid = Some b \<Longrightarrow> status b \<noteq> Running \<Longrightarrow> boards (run evs s) bid = Some b"
  unfolding run_def
proof (induction evs arbitrary: s)
  case Nil
  then show ?case by simp
next
  case (Cons ev evs)
  from Cons.prems have "boards (step ev s) bid = Some b" by (rule step_terminal)
  with Cons.IH Cons.prems(2) show ?case by simp
qed

lemma isValidGuessForMode_D:
  "isValidGuessForMode s w mk \<Longrightarrow> lowerAlpha w \<and> w \<in> guessSet s"
  by (simp add: isValidGuessForMode_def Let_def split: if_splits)

lemma submit_rejected:
  assumes cb: "currentBoard s = Some b" and r: "status b = Running"
    and bad: "length (normaliseWord (currentGuess b)) \<noteq> length (answer b)
        \<or> \<not> lowerAlpha (normaliseWord (currentGuess b))
        \<or> normaliseWord (currentGuess b) \<notin> guessSet s"
  shows "submit e s =
     s\<lparr>message :=
         (if length (normaliseWord (currentGuess b)) \<noteq> length (answer b)
          then ''Must be '' @ showNat (length (answer b)) @ '' letters''
          else ''Not in list''),
       messageKind := Warn, messageTimer := True\<rparr>"
proof (cases "length (normaliseWord (currentGuess b)) \<noteq> length (answer b)")
  case True
  with cb r show ?thesis by (simp add: submit_def Let_def setMessage_def)
next
  case False
  with bad have "\<not> isValidGuessForMode s (normaliseWord (currentGuess b)) (modeKey b)"
    using isValidGuessForMode_D by blast
  with False cb r show ?thesis by (simp add: submit_def Let_def setMessage_def)
qed

lemma submit_rejected_any:
  assumes cb: "currentBoard s = Some b"
    and bad: "length (normaliseWord (currentGuess b)) \<noteq> length (answer b)
        \<or> \<not> lowerAlpha (normaliseWord (currentGuess b))
        \<or> normaliseWord (currentGuess b) \<notin> guessSet s"
  shows "submit e s =
     (if status b = Running then
        s\<lparr>message :=
            (if length (normaliseWord (currentGuess b)) \<noteq> length (answer b)
             then ''Must be '' @ showNat (length (answer b)) @ '' letters''
             else ''Not in list''),
          messageKind := Warn, messageTimer := True\<rparr>
      else s)"
proof (cases "status b = Running")
  case True
  with submit_rejected [OF cb True bad] show ?thesis by simp
next
  case False
  with cb show ?thesis by (simp add: submit_def)
qed

text \<open>
  Claim C7. When the normalised guess on the current board has the wrong length, is not
  alphabetic, or is not in the guessable set, \<open>submit\<close> changes nothing but the
  message: the boards (guesses, status, clock fields, current guess and key state), the
  storage, the save throttle and the tick loop are as before. On a running board the
  message is a warning with a pending fade-out; on a board that is not running
  \<open>submit\<close> does nothing at all.
\<close>

theorem submit_rejected_unchanged:
  "currentBoard s = Some b \<Longrightarrow>
   length (normaliseWord (currentGuess b)) \<noteq> length (answer b)
     \<or> \<not> lowerAlpha (normaliseWord (currentGuess b))
     \<or> normaliseWord (currentGuess b) \<notin> guessSet s \<Longrightarrow>
   submit e s =
     (if status b = Running then
        s\<lparr>message :=
            (if length (normaliseWord (currentGuess b)) \<noteq> length (answer b)
             then ''Must be '' @ showNat (length (answer b)) @ '' letters''
             else ''Not in list''),
          messageKind := Warn, messageTimer := True\<rparr>
      else s)"
  by (rule submit_rejected_any)

lemma saveBoardNow_Some:
  assumes "boards s bid = Some b"
  shows "localStorage (saveBoardNow e bid s) =
      (localStorage s)(storageKeyBoard (modeKey b) (seedKey b) \<mapsto> JObject (toSave b))"
    and "setItemCalls (saveBoardNow e bid s) = setItemCalls s @
      [\<lparr>callTime = perfNow e, callKey = storageKeyBoard (modeKey b) (seedKey b), callForced = True\<rparr>]"
    and "lastSaveAt (saveBoardNow e bid s) = perfNow e"
  using assms by (simp_all add: saveBoardNow_def saveBoardToStorage_def Let_def)

lemma finaliseSolved_Some:
  fixes e :: env
  assumes b: "boards s bid = Some b"
  defines "b' \<equiv> b\<lparr>status := Solved, finalMs := Some (max 0 (elapsedMs b)), lastActiveISO := isoNow e\<rparr>"
  shows "boards (finaliseSolved e bid s) = (boards s)(bid \<mapsto> b')"
    and "localStorage (finaliseSolved e bid s) =
      (localStorage s)(storageKeyBoard (modeKey b) (seedKey b) \<mapsto> JObject (toSave b'))"
    and "setItemCalls (finaliseSolved e bid s) = setItemCalls s @
      [\<lparr>callTime = perfNow e, callKey = storageKeyBoard (modeKey b) (seedKey b), callForced = True\<rparr>]"
    and "lastSaveAt (finaliseSolved e bid s) = perfNow e"
    and "rafHandle (finaliseSolved e bid s) = False"
    and "currentBoardId (finaliseSolved e bid s) = currentBoardId s"
proof -
  define s1 where "s1 = updBoard bid (\<lambda>b. b\<lparr>status := Solved\<rparr>) s"
  define s2 where "s2 = updBoard bid (\<lambda>b. b\<lparr>finalMs := Some (max 0 (elapsedMs b))\<rparr>) s1"
  define s3 where "s3 = stopTick (updBoard bid (\<lambda>b. b\<lparr>lastActiveISO := isoNow e\<rparr>) s2)"
  have b3: "boards s3 = (boards s)(bid \<mapsto> b')"
    using b by (auto simp: s3_def s2_def s1_def b'_def boards_updBoard fun_eq_iff)
  then have b3': "boards s3 bid = Some b'" by simp
  have f: "finaliseSolved e bid s = setMessage (solvedMessage b') Success False (saveBoardNow e bid s3)"
    using b3' by (simp add: finaliseSolved_def Let_def s3_def s2_def s1_def)
  have s3: "localStorage s3 = localStorage s" "setItemCalls s3 = setItemCalls s"
    "currentBoardId s3 = currentBoardId s"
    by (simp_all add: s3_def s2_def s1_def)
  have k: "modeKey b' = modeKey b" "seedKey b' = seedKey b" by (simp_all add: b'_def)
  show "boards (finaliseSolved e bid s) = (boards s)(bid \<mapsto> b')" by (simp add: f b3)
  show "localStorage (finaliseSolved e bid s) =
      (localStorage s)(storageKeyBoard (modeKey b) (seedKey b) \<mapsto> JObject (toSave b'))"
    by (simp add: f saveBoardNow_Some(1) [OF b3'] k s3)
  show "setItemCalls (finaliseSolved e bid s) = setItemCalls s @
      [\<lparr>callTime = perfNow e, callKey = storageKeyBoard (modeKey b) (seedKey b), callForced = True\<rparr>]"
    by (simp add: f saveBoardNow_Some(2) [OF b3'] k s3)
  show "lastSaveAt (finaliseSolved e bid s) = perfNow e"
    by (simp add: f saveBoardNow_Some(3) [OF b3'])
  show "rafHandle (finaliseSolved e bid s) = False"
    by (simp add: f s3_def)
  show "currentBoardId (finaliseSolved e bid s) = currentBoardId s"
    by (simp add: f s3)
qed

lemma submit_solved:
  assumes cb: "currentBoard s = Some b" and r: "status b = Running" and st: "hasStarted b"
    and g: "normaliseWord (currentGuess b) = answer b"
    and v: "isValidGuessForMode s (answer b) (modeKey b)"
  shows "\<exists>b'. currentBoard (submit e s) = Some b' \<and> status b' = Solved
      \<and> finalMs b' = Some (max 0 (elapsedMs b)) \<and> elapsedMs b' = elapsedMs b
      \<and> localStorage (submit e s) (storageKeyBoard (modeKey b) (seedKey b)) = Some (JObject (toSave b'))
      \<and> setItemCalls (submit e s) = setItemCalls s @
          [\<lparr>callTime = perfNow e, callKey = storageKeyBoard (modeKey b) (seedKey b), callForced = True\<rparr>,
           \<lparr>callTime = perfNow e, callKey = storageKeyBoard (modeKey b) (seedKey b), callForced = True\<rparr>]
      \<and> lastSaveAt (submit e s) = perfNow e
      \<and> \<not> rafHandle (submit e s)"
proof -
  define bid where "bid = currentBoardId s"
  define a where "a = answer b"
  define s1 where "s1 = updBoard bid (\<lambda>b. b\<lparr>guesses := guesses b @ [\<lparr>word = a, fb = makeFeedback a a\<rparr>]\<rparr>) s"
  define s2 where "s2 = updBoard bid (\<lambda>b. b\<lparr>keyState := computeKeyStateFromGuesses (guesses b)\<rparr>) s1"
  define s3 where "s3 = updBoard bid (\<lambda>b. b\<lparr>currentGuess := ''''\<rparr>) s2"
  define s4 where "s4 = saveBoardNow e bid s3"
  define b3 where "b3 = b\<lparr>guesses := guesses b @ [\<lparr>word = a, fb = makeFeedback a a\<rparr>],
      keyState := computeKeyStateFromGuesses (guesses b @ [\<lparr>word = a, fb = makeFeedback a a\<rparr>]),
      currentGuess := ''''\<rparr>"
  define b' where "b' = b3\<lparr>status := Solved, finalMs := Some (max 0 (elapsedMs b3)), lastActiveISO := isoNow e\<rparr>"
  have sub: "submit e s = finaliseSolved e bid s4"
    using cb r st g v
    by (simp add: submit_def Let_def s4_def s3_def s2_def s1_def bid_def a_def)
  from cb have b0: "boards s bid = Some b" by (simp add: currentBoard_def bid_def)
  have bs3: "boards s3 bid = Some b3"
    using b0 by (simp add: s3_def s2_def s1_def boards_updBoard b3_def)
  have f3: "localStorage s3 = localStorage s" "setItemCalls s3 = setItemCalls s"
    "currentBoardId s3 = currentBoardId s"
    by (simp_all add: s3_def s2_def s1_def)
  have bs4: "boards s4 bid = Some b3" using bs3 by (simp add: s4_def)
  have k3: "modeKey b3 = modeKey b" "seedKey b3 = seedKey b" "elapsedMs b3 = elapsedMs b"
    by (simp_all add: b3_def)
  have c4: "setItemCalls s4 = setItemCalls s @
      [\<lparr>callTime = perfNow e, callKey = storageKeyBoard (modeKey b) (seedKey b), callForced = True\<rparr>]"
    unfolding s4_def by (simp add: saveBoardNow_Some(2) [OF bs3] f3 k3)
  have id4: "currentBoardId s4 = bid" by (simp add: s4_def f3 bid_def)
  note fin = finaliseSolved_Some [OF bs4, of e, folded b'_def]
  have "currentBoard (submit e s) = Some b'"
    by (simp add: sub currentBoard_def fin(1) fin(6) id4)
  moreover have "status b' = Solved" "finalMs b' = Some (max 0 (elapsedMs b))" "elapsedMs b' = elapsedMs b"
    by (simp_all add: b'_def k3)
  moreover have "localStorage (submit e s) (storageKeyBoard (modeKey b) (seedKey b)) = Some (JObject (toSave b'))"
    by (simp add: sub fin(2) k3)
  moreover have "setItemCalls (submit e s) = setItemCalls s @
          [\<lparr>callTime = perfNow e, callKey = storageKeyBoard (modeKey b) (seedKey b), callForced = True\<rparr>,
           \<lparr>callTime = perfNow e, callKey = storageKeyBoard (modeKey b) (seedKey b), callForced = True\<rparr>]"
    by (simp add: sub fin(3) k3 c4)
  moreover have "lastSaveAt (submit e s) = perfNow e" by (simp add: sub fin(4))
  moreover have "\<not> rafHandle (submit e s)" by (simp add: sub fin(5))
  ultimately show ?thesis by blast
qed

text \<open>
  Claim C4, as the code has it. When the current board is running and started, the
  normalised guess equals the answer and the guess is accepted by \<open>isValidGuessForMode\<close>
  (alphabetic, of a length the mode allows, and in the guessable set), \<open>submit\<close> sets the
  status to solved and \<open>finalMs\<close> to \<open>max 0 elapsedMs\<close>, which is never negative and is
  the board's \<open>elapsedMs\<close> whenever that is not negative; \<open>elapsedMs\<close> is unchanged, the
  tick loop is stopped, and the solved board is written to the storage by forced saves,
  whatever the time of the last save.
\<close>

theorem submit_answer_solves:
  "currentBoard s = Some b \<Longrightarrow> status b = Running \<Longrightarrow> hasStarted b \<Longrightarrow>
   normaliseWord (currentGuess b) = answer b \<Longrightarrow>
   isValidGuessForMode s (answer b) (modeKey b) \<Longrightarrow>
   \<exists>b'. currentBoard (submit e s) = Some b' \<and> status b' = Solved
      \<and> finalMs b' = Some (max 0 (elapsedMs b)) \<and> elapsedMs b' = elapsedMs b
      \<and> localStorage (submit e s) (storageKeyBoard (modeKey b) (seedKey b)) = Some (JObject (toSave b'))
      \<and> setItemCalls (submit e s) = setItemCalls s @
          [\<lparr>callTime = perfNow e, callKey = storageKeyBoard (modeKey b) (seedKey b), callForced = True\<rparr>,
           \<lparr>callTime = perfNow e, callKey = storageKeyBoard (modeKey b) (seedKey b), callForced = True\<rparr>]
      \<and> lastSaveAt (submit e s) = perfNow e
      \<and> \<not> rafHandle (submit e s)"
  by (rule submit_solved)

theorem submit_answer_solves_witness:
  "currentBoard exampleApp = Some exampleBoard \<and> status exampleBoard = Running \<and>
   hasStarted exampleBoard \<and>
   normaliseWord (currentGuess exampleBoard) = answer exampleBoard \<and>
   isValidGuessForMode exampleApp (answer exampleBoard) (modeKey exampleBoard) \<and>
   (\<exists>b'. currentBoard (submit exampleEnv exampleApp) = Some b' \<and> status b' = Solved
      \<and> finalMs b' = Some (max 0 (elapsedMs exampleBoard)) \<and> elapsedMs b' = elapsedMs exampleBoard
      \<and> localStorage (submit exampleEnv exampleApp)
            (storageKeyBoard (modeKey exampleBoard) (seedKey exampleBoard)) = Some (JObject (toSave b'))
      \<and> setItemCalls (submit exampleEnv exampleApp) = setItemCalls exampleApp @
          [\<lparr>callTime = perfNow exampleEnv,
            callKey = storageKeyBoard (modeKey exampleBoard) (seedKey exampleBoard), callForced = True\<rparr>,
           \<lparr>callTime = perfNow exampleEnv,
            callKey = storageKeyBoard (modeKey exampleBoard) (seedKey exampleBoard), callForced = True\<rparr>]
      \<and> lastSaveAt (submit exampleEnv exampleApp) = perfNow exampleEnv
      \<and> \<not> rafHandle (submit exampleEnv exampleApp))"
proof -
  have h1: "currentBoard exampleApp = Some exampleBoard"
    by (simp add: currentBoard_def exampleApp_def)
  have h2: "status exampleBoard = Running" and h3: "hasStarted exampleBoard"
    by (simp_all add: exampleBoard_def)
  have h4: "normaliseWord (currentGuess exampleBoard) = answer exampleBoard"
    by code_simp
  have h5: "isValidGuessForMode exampleApp (answer exampleBoard) (modeKey exampleBoard)"
    by code_simp
  from h1 h2 h3 h4 h5 submit_answer_solves [OF h1 h2 h3 h4 h5, of exampleEnv]
  show ?thesis by (intro conjI)
qed

text \<open>
  The claim without the acceptance of the guess fails. The board made from an empty
  answer pool has the fallback answer \<open>speed\<close>; with \<open>speed\<close> typed on it, running and
  started, in an application whose guessable set does not hold \<open>speed\<close>, \<open>submit\<close>
  rejects the guess: the board stays as it is, running, and nothing is written.
\<close>

theorem submit_answer_counterexample:
  "currentBoard fallbackApp = Some fallbackBoard \<and> status fallbackBoard = Running \<and>
   hasStarted fallbackBoard \<and>
   normaliseWord (currentGuess fallbackBoard) = answer fallbackBoard \<and>
   currentBoard (submit exampleEnv fallbackApp) = Some fallbackBoard \<and>
   finalMs fallbackBoard = None \<and>
   setItemCalls (submit exampleEnv fallbackApp) = []"
proof -
  have h1: "currentBoard fallbackApp = Some fallbackBoard"
    by (simp add: currentBoard_def fallbackApp_def exampleApp_def)
  have h2: "status fallbackBoard = Running" and h3: "hasStarted fallbackBoard"
    and h6: "finalMs fallbackBoard = None"
    by (simp_all add: fallbackBoard_def exampleBoard_def)
  have h4: "normaliseWord (currentGuess fallbackBoard) = answer fallbackBoard"
    by code_simp
  have "normaliseWord (currentGuess fallbackBoard) \<notin> guessSet fallbackApp"
    by code_simp
  then have "submit exampleEnv fallbackApp =
      fallbackApp\<lparr>message := ''Not in list'', messageKind := Warn, messageTimer := True\<rparr>"
    using submit_rejected [OF h1 h2, of exampleEnv] h4 by simp
  then have "currentBoard (submit exampleEnv fallbackApp) = Some fallbackBoard"
    and "setItemCalls (submit exampleEnv fallbackApp) = []"
    using h1 by (simp_all add: currentBoard_def fallbackApp_def exampleApp_def)
  with h1 h2 h3 h4 h6 show ?thesis by (intro conjI)
qed

theorem terminal_board_frozen_witness:
  "boards solvedApp ''daily.2024-01-01'' = Some solvedBoard \<and>
   status solvedBoard \<noteq> Running \<and>
   boards (run [Submit exampleEnv, AddChar ''a'', Backspace, ClearGuess,
       Pause exampleEnv ''daily.2024-01-01'' '''', Resume exampleEnv ''daily.2024-01-01'',
       Frame exampleEnv] solvedApp) ''daily.2024-01-01'' = Some solvedBoard"
  using terminal_board_frozen [of solvedApp "''daily.2024-01-01''" solvedBoard
      "[Submit exampleEnv, AddChar ''a'', Backspace, ClearGuess,
       Pause exampleEnv ''daily.2024-01-01'' '''', Resume exampleEnv ''daily.2024-01-01'',
       Frame exampleEnv]"]
  by (simp add: solvedApp_def solvedBoard_def exampleApp_def)

theorem submit_rejected_unchanged_witness:
  "currentBoard fallbackApp = Some fallbackBoard \<and> status fallbackBoard = Running \<and>
   normaliseWord (currentGuess fallbackBoard) \<notin> guessSet fallbackApp \<and>
   submit exampleEnv fallbackApp =
     fallbackApp\<lparr>message := ''Not in list'', messageKind := Warn, messageTimer := True\<rparr>"
proof -
  have h1: "currentBoard fallbackApp = Some fallbackBoard"
    by (simp add: currentBoard_def fallbackApp_def exampleApp_def)
  have h2: "status fallbackBoard = Running"
    by (simp add: fallbackBoard_def exampleBoard_def)
  have h3: "normaliseWord (currentGuess fallbackBoard) \<notin> guessSet fallbackApp"
    by code_simp
  have h4: "length (normaliseWord (currentGuess fallbackBoard)) = length (answer fallbackBoard)"
    by code_simp
  from h3 have "submit exampleEnv fallbackApp =
      fallbackApp\<lparr>message := ''Not in list'', messageKind := Warn, messageTimer := True\<rparr>"
    using submit_rejected_unchanged [OF h1, of exampleEnv] h2 h4 by simp
  with h1 h2 h3 show ?thesis by (intro conjI)
qed

lemma pauseBoard_started:
  assumes "boards s bid = Some b" "status b = Running" "hasStarted b"
  shows "boards (pauseBoard e bid r s) bid =
     Some (b\<lparr>elapsedMs := perfNow e - startPerfTs b, lastActiveISO := isoNow e\<rparr>)"
  using assms by (simp add: pauseBoard_def Let_def boards_updBoard)

lemma resumeBoard_running:
  assumes "boards s bid = Some b" "status b = Running"
  shows "boards (resumeBoard e bid s) bid =
     Some (b\<lparr>startPerfTs := perfNow e - elapsedMs b, lastActiveISO := isoNow e\<rparr>)"
  using assms by (simp add: resumeBoard_def Let_def boards_updBoard)

lemma frame_sameClock:
  assumes "boards s bid = Some b"
  shows "\<exists>b'. boards (frame e s) bid = Some b' \<and> sameClock b b'"
proof (cases "rafHandle s \<and> currentBoardId s = bid \<and> status b = Running")
  case True
  with assms show ?thesis
    by (simp add: frame_def loop_def Let_def boards_updBoard currentBoard_def sameClock_def)
next
  case False
  have "boards (frame e s) bid = boards s bid"
  proof (cases "rafHandle s")
    case r: True
    show ?thesis
    proof (cases "currentBoardId s = bid")
      case True
      with False r assms have "status b \<noteq> Running" by simp
      with assms True show ?thesis by (simp add: frame_def loop_def currentBoard_def)
    next
      case False
      then show ?thesis using other_loop [of s bid e] by (simp add: frame_def)
    qed
  next
    case False
    then show ?thesis by (simp add: frame_def)
  qed
  with assms show ?thesis by (simp add: sameClock_def)
qed

lemma frames_sameClock:
  "boards s bid = Some b \<Longrightarrow> \<exists>b'. boards (fold frame es s) bid = Some b' \<and> sameClock b b'"
proof (induction es arbitrary: s b)
  case Nil
  then show ?case by (simp add: sameClock_def)
next
  case (Cons e es)
  from frame_sameClock [OF Cons.prems, of e]
  obtain b1 where b1: "boards (frame e s) bid = Some b1" "sameClock b b1" by blast
  from Cons.IH [OF b1(1)]
  obtain b2 where "boards (fold frame es (frame e s)) bid = Some b2" "sameClock b1 b2" by blast
  with b1(2) show ?case by (auto simp: sameClock_def)
qed

lemma pause_resume_pause:
  assumes b: "boards s bid = Some b" and r: "status b = Running" and h: "hasStarted b"
    and t: "perfNow e1 = startPerfTs b + t"
    and u: "perfNow e3 = perfNow e2 + u"
  shows "\<exists>b1 b2 b3.
      boards (pauseBoard e1 bid r1 s) bid = Some b1 \<and> elapsedMs b1 = t \<and>
      boards (resumeBoard e2 bid (pauseBoard e1 bid r1 s)) bid = Some b2 \<and>
      startPerfTs b2 = perfNow e2 - t \<and> elapsedMs b2 = t \<and>
      boards (pauseBoard e3 bid r3 (fold frame es (resumeBoard e2 bid (pauseBoard e1 bid r1 s)))) bid
        = Some b3 \<and>
      elapsedMs b3 = t + u"
proof -
  define b1 where "b1 = b\<lparr>elapsedMs := perfNow e1 - startPerfTs b, lastActiveISO := isoNow e1\<rparr>"
  define b2 where "b2 = b1\<lparr>startPerfTs := perfNow e2 - elapsedMs b1, lastActiveISO := isoNow e2\<rparr>"
  define s1 where "s1 = pauseBoard e1 bid r1 s"
  define s2 where "s2 = resumeBoard e2 bid s1"
  have p1: "boards s1 bid = Some b1"
    unfolding s1_def b1_def by (rule pauseBoard_started [OF b r h])
  have r1: "status b1 = Running" and h1: "hasStarted b1" and e1: "elapsedMs b1 = t"
    using r h t by (simp_all add: b1_def)
  have p2: "boards s2 bid = Some b2"
    unfolding s2_def b2_def by (rule resumeBoard_running [OF p1 r1])
  have st2: "startPerfTs b2 = perfNow e2 - t" and e2: "elapsedMs b2 = t"
    using e1 by (simp_all add: b2_def)
  from frames_sameClock [OF p2, of es]
  obtain b2' where f: "boards (fold frame es s2) bid = Some b2'" and sc: "sameClock b2 b2'"
    by blast
  from sc r1 h1 st2 have r2: "status b2' = Running" and h2: "hasStarted b2'"
    and st2': "startPerfTs b2' = perfNow e2 - t"
    by (simp_all add: sameClock_def b2_def)
  define b3 where "b3 = b2'\<lparr>elapsedMs := perfNow e3 - startPerfTs b2', lastActiveISO := isoNow e3\<rparr>"
  have p3: "boards (pauseBoard e3 bid r3 (fold frame es s2)) bid = Some b3"
    unfolding b3_def by (rule pauseBoard_started [OF f r2 h2])
  have e3: "elapsedMs b3 = t + u" using st2' u by (simp add: b3_def)
  from p1 e1 p2 st2 e2 p3 e3 show ?thesis unfolding s1_def s2_def by blast
qed

text \<open>
  Claim C5. For a started running board with reference instant \<open>startPerfTs\<close>: pausing
  at the instant \<open>startPerfTs + t\<close> sets \<open>elapsedMs\<close> to \<open>t\<close>; resuming at any later
  instant \<open>now\<close> sets the reference instant to \<open>now - t\<close>; and pausing again \<open>u\<close>
  milliseconds after the resume, with any frames of the tick loop in between, sets
  \<open>elapsedMs\<close> to \<open>t + u\<close>. Instants are real numbers here: the rounding of the
  subtractions in binary64 is not part of the model.
\<close>

theorem pause_resume_accumulates:
  "boards s bid = Some b \<Longrightarrow> status b = Running \<Longrightarrow> hasStarted b \<Longrightarrow>
   perfNow e1 = startPerfTs b + t \<Longrightarrow> perfNow e3 = perfNow e2 + u \<Longrightarrow>
   \<exists>b1 b2 b3.
      boards (pauseBoard e1 bid r1 s) bid = Some b1 \<and> elapsedMs b1 = t \<and>
      boards (resumeBoard e2 bid (pauseBoard e1 bid r1 s)) bid = Some b2 \<and>
      startPerfTs b2 = perfNow e2 - t \<and> elapsedMs b2 = t \<and>
      boards (pauseBoard e3 bid r3 (fold frame es (resumeBoard e2 bid (pauseBoard e1 bid r1 s)))) bid
        = Some b3 \<and>
      elapsedMs b3 = t + u"
  by (rule pause_resume_pause)

theorem pause_resume_accumulates_witness:
  "boards exampleApp ''daily.2024-01-01'' = Some exampleBoard \<and>
   status exampleBoard = Running \<and> hasStarted exampleBoard \<and>
   perfNow exampleEnv = startPerfTs exampleBoard + 5000 \<and>
   perfNow (exampleEnv\<lparr>perfNow := 22000\<rparr>) = perfNow (exampleEnv\<lparr>perfNow := 20000\<rparr>) + 2000 \<and>
   (\<exists>b1 b2 b3.
      boards (pauseBoard exampleEnv ''daily.2024-01-01'' '''' exampleApp) ''daily.2024-01-01'' = Some b1 \<and>
      elapsedMs b1 = 5000 \<and>
      boards (resumeBoard (exampleEnv\<lparr>perfNow := 20000\<rparr>) ''daily.2024-01-01''
        (pauseBoard exampleEnv ''daily.2024-01-01'' '''' exampleApp)) ''daily.2024-01-01'' = Some b2 \<and>
      startPerfTs b2 = 15000 \<and> elapsedMs b2 = 5000 \<and>
      boards (pauseBoard (exampleEnv\<lparr>perfNow := 22000\<rparr>) ''daily.2024-01-01'' ''''
        (fold frame [exampleEnv\<lparr>perfNow := 21000\<rparr>]
          (resumeBoard (exampleEnv\<lparr>perfNow := 20000\<rparr>) ''daily.2024-01-01''
            (pauseBoard exampleEnv ''daily.2024-01-01'' '''' exampleApp)))) ''daily.2024-01-01'' = Some b3 \<and>
      elapsedMs b3 = 7000)"
proof -
  have h1: "boards exampleApp ''daily.2024-01-01'' = Some exampleBoard"
    by (simp add: exampleApp_def)
  have h2: "status exampleBoard = Running" and h3: "hasStarted exampleBoard"
    by (simp_all add: exampleBoard_def)
  have h4: "perfNow exampleEnv = startPerfTs exampleBoard + 5000"
    by (simp add: exampleEnv_def exampleBoard_def)
  have h5: "perfNow (exampleEnv\<lparr>perfNow := 22000\<rparr>) = perfNow (exampleEnv\<lparr>perfNow := 20000\<rparr>) + 2000"
    by simp
  from pause_resume_accumulates [OF h1 h2 h3 h4 h5, of "''''" "''''" "[exampleEnv\<lparr>perfNow := 21000\<rparr>]"]
  have "\<exists>b1 b2 b3.
      boards (pauseBoard exampleEnv ''daily.2024-01-01'' '''' exampleApp) ''daily.2024-01-01'' = Some b1 \<and>
      elapsedMs b1 = 5000 \<and>
      boards (resumeBoard (exampleEnv\<lparr>perfNow := 20000\<rparr>) ''daily.2024-01-01''
        (pauseBoard exampleEnv ''daily.2024-01-01'' '''' exampleApp)) ''daily.2024-01-01'' = Some b2 \<and>
      startPerfTs b2 = 15000 \<and> elapsedMs b2 = 5000 \<and>
      boards (pauseBoard (exampleEnv\<lparr>perfNow := 22000\<rparr>) ''daily.2024-01-01'' ''''
        (fold frame [exampleEnv\<lparr>perfNow := 21000\<rparr>]
          (resumeBoard (exampleEnv\<lparr>perfNow := 20000\<rparr>) ''daily.2024-01-01''
            (pauseBoard exampleEnv ''daily.2024-01-01'' '''' exampleApp)))) ''daily.2024-01-01'' = Some b3 \<and>
      elapsedMs b3 = 7000"
    by simp
  with h1 h2 h3 h4 h5 show ?thesis by (intro conjI)
qed

section \<open>Properties of loading\<close>





text \<open>
  An object with a string answer of 3 to 9 letters: the load is the key state
  computation on the stored guesses, followed by the repairs.
\<close>

lemma load_object:
  assumes "localStorage s (storageKeyBoard mk sk) = Some (JObject o1)"
    and "stored_answer o1 = Has a" and "3 \<le> length a" and "length a \<le> 9"
  shows "loadBoardFromStorage pf s mk sk =
     bindE (computeKeyStateFromGuesses_json pf (guessesOrEmpty o1)) (\<lambda>ks.
       Inr (Some \<lparr>obj = o1\<lparr>stored_guesses := Some (JArr (guessesOrEmpty o1)),
               stored_currentGuess :=
                 (case stored_currentGuess o1 of Has c \<Rightarrow> Has c | _ \<Rightarrow> Has ''''),
               stored_hasStarted :=
                 (if isBoolean (stored_hasStarted o1) then stored_hasStarted o1
                  else Has (0 < elapsedOr0 o1 \<or> guessesOrEmpty o1 \<noteq> []))\<rparr>,
           obj_keyState = ks\<rparr>))"
  using assms
  by (cases "stored_currentGuess o1"; cases "stored_hasStarted o1";
      cases "computeKeyStateFromGuesses_json pf (guessesOrEmpty o1)")
    (simp_all add: loadBoardFromStorage_def MIN_LEN_def MAX_LEN_def Let_def guessesOrEmpty_def
      elapsedOr0_def isBoolean_def bindE_def)

text \<open>
  On the guesses that a save writes, the key state computation on stored values does
  not throw and gives the marks that \<open>computeKeyStateFromGuesses\<close> gives on the board.
\<close>

lemma bindE_simps: "bindE (Inl e) f = Inl e" "bindE (Inr x) f = f x"
  by (simp_all add: bindE_def)












text \<open>
  On an entry that is \<open>null\<close>, and on an entry without \<open>fb\<close>, the computation throws,
  and so does the load of an otherwise valid object.
\<close>

lemma computeKeyState_null_entry:
  "computeKeyStateFromGuesses_json pf [JNull] = Inl TypeError"
  by (simp add: computeKeyStateFromGuesses_json_def foldE_def bindE_def keyStateEntry_json_def)

lemma computeKeyState_no_fb:
  "computeKeyStateFromGuesses_json pf [JObj [(''word'', JStr ''ab'')]] = Inl TypeError"
proof -
  have "[0..<2] = [0, Suc 0]" by (simp add: upt_rec)
  then show ?thesis
    by (simp add: computeKeyStateFromGuesses_json_def foldE_def bindE_def keyStateEntry_json_def
        keyStateStep_json_def iterations_def member_def)
qed

lemma load_null_guess_throws:
  "loadBoardFromStorage pf (storedApp (JObject nullGuessSnapshot)) ''daily'' ''2024-01-01''
     = Inl TypeError"
proof -
  have g: "guessesOrEmpty nullGuessSnapshot = [JNull]"
    by (simp add: guessesOrEmpty_def nullGuessSnapshot_def)
  have "loadBoardFromStorage pf (storedApp (JObject nullGuessSnapshot)) ''daily'' ''2024-01-01''
      = bindE (computeKeyStateFromGuesses_json pf (guessesOrEmpty nullGuessSnapshot)) (\<lambda>ks.
       Inr (Some \<lparr>obj = nullGuessSnapshot\<lparr>stored_guesses := Some (JArr (guessesOrEmpty nullGuessSnapshot)),
               stored_currentGuess :=
                 (case stored_currentGuess nullGuessSnapshot of Has c \<Rightarrow> Has c | _ \<Rightarrow> Has ''''),
               stored_hasStarted :=
                 (if isBoolean (stored_hasStarted nullGuessSnapshot) then stored_hasStarted nullGuessSnapshot
                  else Has (0 < elapsedOr0 nullGuessSnapshot \<or> guessesOrEmpty nullGuessSnapshot \<noteq> []))\<rparr>,
           obj_keyState = ks\<rparr>))"
    by (rule load_object [where a = "''apple''"])
      (simp_all add: storedApp_def nullGuessSnapshot_def exampleSnapshot_def toSave_def exampleBoard_def)
  then show ?thesis by (simp add: g computeKeyState_null_entry bindE_simps)
qed

lemma load_no_fb_throws:
  "loadBoardFromStorage pf (storedApp (JObject noFbSnapshot)) ''daily'' ''2024-01-01''
     = Inl TypeError"
proof -
  have g: "guessesOrEmpty noFbSnapshot = [JObj [(''word'', JStr ''ab'')]]"
    by (simp add: guessesOrEmpty_def noFbSnapshot_def)
  have "loadBoardFromStorage pf (storedApp (JObject noFbSnapshot)) ''daily'' ''2024-01-01''
      = bindE (computeKeyStateFromGuesses_json pf (guessesOrEmpty noFbSnapshot)) (\<lambda>ks.
       Inr (Some \<lparr>obj = noFbSnapshot\<lparr>stored_guesses := Some (JArr (guessesOrEmpty noFbSnapshot)),
               stored_currentGuess :=
                 (case stored_currentGuess noFbSnapshot of Has c \<Rightarrow> Has c | _ \<Rightarrow> Has ''''),
               stored_hasStarted :=
                 (if isBoolean (stored_hasStarted noFbSnapshot) then stored_hasStarted noFbSnapshot
                  else Has (0 < elapsedOr0 noFbSnapshot \<or> guessesOrEmpty noFbSnapshot \<noteq> []))\<rparr>,
           obj_keyState = ks\<rparr>))"
    by (rule load_object [where a = "''apple''"])
      (simp_all add: storedApp_def noFbSnapshot_def exampleSnapshot_def toSave_def exampleBoard_def)
  then show ?thesis by (simp add: g computeKeyState_no_fb bindE_simps)
qed




section \<open>Properties of the save throttle\<close>

lemma spaced_snoc:
  "spaced (cs @ [d]) =
     (spaced cs \<and> (callForced d \<or> list_all (\<lambda>c. callTime c + saveIntervalMs \<le> callTime d) cs))"
  by (induction cs) auto

lemma spaced_nth:
  "spaced cs \<Longrightarrow> i < j \<Longrightarrow> j < length cs \<Longrightarrow> \<not> callForced (cs ! j) \<Longrightarrow>
   callTime (cs ! i) + saveIntervalMs \<le> callTime (cs ! j)"
proof (induction cs arbitrary: i j)
  case Nil
  then show ?case by simp
next
  case (Cons c cs)
  from Cons.prems(2) obtain j' where j: "j = Suc j'" by (cases j) auto
  show ?case
  proof (cases i)
    case 0
    from Cons.prems(1) have "list_all (\<lambda>d. callForced d \<or> callTime c + saveIntervalMs \<le> callTime d) cs"
      by simp
    with Cons.prems(3,4) j have "callTime c + saveIntervalMs \<le> callTime (cs ! j')"
      by (auto simp: list_all_length)
    with 0 j show ?thesis by simp
  next
    case (Suc i')
    with Cons.prems j have "callTime (cs ! i') + saveIntervalMs \<le> callTime (cs ! j')"
      by (intro Cons.IH) auto
    with Suc j show ?thesis by simp
  qed
qed

lemma throttled_mono: "throttled t s \<Longrightarrow> t \<le> t' \<Longrightarrow> throttled t' s"
  by (simp add: throttled_def)

lemma throttled_cong:
  "lastSaveAt s' = lastSaveAt s \<Longrightarrow> setItemCalls s' = setItemCalls s \<Longrightarrow>
   throttled t s' = throttled t s"
  by (simp add: throttled_def)

lemma throttled_simps [simp]:
  "throttled t (updBoard bid f s) = throttled t s"
  "throttled t (stopTick s) = throttled t s"
  "throttled t (startTick s) = throttled t s"
  "throttled t (setMessage m k a s) = throttled t s"
  "throttled t (s\<lparr>rafHandle := x\<rparr>) = throttled t s"
  by (simp_all add: throttled_def)

lemma throttled_write:
  assumes "throttled now s" and "force \<or> lastSaveAt s + saveIntervalMs \<le> now"
  shows "throttled now (s\<lparr>lastSaveAt := now, localStorage := st,
      setItemCalls := setItemCalls s @ [\<lparr>callTime = now, callKey = k, callForced = force\<rparr>]\<rparr>)"
proof -
  from assms(1) have l: "lastSaveAt s \<le> now"
    and a: "list_all (\<lambda>c. callTime c \<le> lastSaveAt s) (setItemCalls s)"
    and sp: "spaced (setItemCalls s)"
    by (simp_all add: throttled_def)
  from a l have a': "list_all (\<lambda>c. callTime c \<le> now) (setItemCalls s)"
    by (auto simp: list_all_iff)
  have "force \<or> list_all (\<lambda>c. callTime c + saveIntervalMs \<le> now) (setItemCalls s)"
    using assms(2) a by (auto simp: list_all_iff)
  with a' sp show ?thesis by (simp add: throttled_def spaced_snoc)
qed

lemma throttled_saveBoardToStorage:
  "throttled (perfNow e) s \<Longrightarrow> throttled (perfNow e) (saveBoardToStorage e bid force s)"
  by (auto simp: saveBoardToStorage_def Let_def throttled_write split: option.splits)

lemma throttled_saveBoardNow:
  assumes "throttled (perfNow e) s" and "boards s bid \<noteq> None"
  shows "throttled (perfNow e) (saveBoardNow e bid s)"
proof -
  from assms(2) obtain b where b: "boards s bid = Some b" by blast
  have "saveBoardNow e bid s = s\<lparr>lastSaveAt := perfNow e,
      localStorage := (localStorage s)(storageKeyBoard (modeKey b) (seedKey b) \<mapsto> JObject (toSave b)),
      setItemCalls := setItemCalls s @
        [\<lparr>callTime = perfNow e, callKey = storageKeyBoard (modeKey b) (seedKey b), callForced = True\<rparr>]\<rparr>"
    using b by (simp add: saveBoardNow_def saveBoardToStorage_def Let_def)
  with throttled_write [OF assms(1), of True] show ?thesis by simp
qed

lemma dom_updBoard [simp]: "(boards (updBoard bid f s) x = None) = (boards s x = None)"
  by (simp add: boards_updBoard)

lemma throttled_finaliseSolved:
  "throttled (perfNow e) s \<Longrightarrow> boards s bid \<noteq> None \<Longrightarrow>
   throttled (perfNow e) (finaliseSolved e bid s)"
  by (auto simp: finaliseSolved_def Let_def throttled_saveBoardNow split: option.splits)

lemma throttled_pauseBoard:
  "throttled (perfNow e) s \<Longrightarrow> throttled (perfNow e) (pauseBoard e bid r s)"
  by (simp add: pauseBoard_def Let_def throttled_saveBoardNow split: option.splits)

lemma throttled_resumeBoard:
  "throttled (perfNow e) s \<Longrightarrow> throttled (perfNow e) (resumeBoard e bid s)"
  by (simp add: resumeBoard_def Let_def throttled_saveBoardToStorage split: option.splits)

lemma throttled_loop:
  "throttled (perfNow e) s \<Longrightarrow> throttled (perfNow e) (loop e s)"
  by (simp add: loop_def Let_def throttled_saveBoardToStorage split: option.splits)

lemma throttled_untimed:
  "throttled t (addChar ch s) = throttled t s"
  "throttled t (backspace s) = throttled t s"
  "throttled t (clearGuess s) = throttled t s"
  by (simp_all add: addChar_def backspace_def clearGuess_def split: option.splits)


lemma throttled_submit:
  "throttled (perfNow e) s \<Longrightarrow> throttled (perfNow e) (submit e s)"
  by (auto simp: submit_def Let_def currentBoard_def throttled_saveBoardNow throttled_finaliseSolved
      split: option.splits)

lemma throttled_step:
  assumes "throttled t0 s" and "case timeOf ev of None \<Rightarrow> True | Some t \<Rightarrow> t0 \<le> t"
  shows "throttled (case timeOf ev of None \<Rightarrow> t0 | Some t \<Rightarrow> t) (step ev s)"
proof (cases ev)
  case (Submit e)
  with assms have "throttled (perfNow e) s" by (simp add: throttled_mono)
  with Submit show ?thesis by (simp add: throttled_submit)
next
  case (AddChar ch)
  with assms show ?thesis by (simp add: throttled_untimed)
next
  case Backspace
  with assms show ?thesis by (simp add: throttled_untimed)
next
  case ClearGuess
  with assms show ?thesis by (simp add: throttled_untimed)
next
  case (Pause e bid r)
  with assms have "throttled (perfNow e) s" by (simp add: throttled_mono)
  with Pause show ?thesis by (simp add: throttled_pauseBoard)
next
  case (Resume e bid)
  with assms have "throttled (perfNow e) s" by (simp add: throttled_mono)
  with Resume show ?thesis by (simp add: throttled_resumeBoard)
next
  case (Frame e)
  with assms have "throttled (perfNow e) s" by (simp add: throttled_mono)
  with Frame show ?thesis by (simp add: frame_def throttled_loop)
qed

lemma throttled_run:
  "throttled t0 s \<Longrightarrow> timed t0 (evs @ [Frame e]) \<Longrightarrow> throttled (perfNow e) (run evs s)"
  unfolding run_def
proof (induction evs arbitrary: t0 s)
  case Nil
  then show ?case by (simp add: throttled_mono)
next
  case (Cons ev evs)
  let ?t = "case timeOf ev of None \<Rightarrow> t0 | Some t \<Rightarrow> t"
  from Cons.prems(2) have a: "case timeOf ev of None \<Rightarrow> True | Some t \<Rightarrow> t0 \<le> t"
    and b: "timed ?t (evs @ [Frame e])"
    by (simp_all split: option.splits)
  from throttled_step [OF Cons.prems(1) a] have "throttled ?t (step ev s)" .
  from Cons.IH [OF this b] show ?case by simp
qed

lemma timed_snoc: "timed t0 evs \<Longrightarrow> \<exists>e. timed t0 (evs @ [Frame e])"
proof (induction evs arbitrary: t0)
  case Nil
  have "timed t0 ([] @ [Frame \<lparr>perfNow = t0, isoNow = []\<rparr>])" by simp
  then show ?case by (rule exI)
next
  case (Cons ev evs)
  show ?case
  proof (cases "timeOf ev")
    case None
    with Cons.prems have "timed t0 evs" by simp
    from Cons.IH [OF this] None show ?thesis by simp
  next
    case (Some t)
    with Cons.prems have "t0 \<le> t" "timed t evs" by simp_all
    from Cons.IH [OF this(2)] Some \<open>t0 \<le> t\<close> show ?thesis by simp
  qed
qed

lemma throttled_initial: "setItemCalls s = [] \<Longrightarrow> lastSaveAt s \<le> t0 \<Longrightarrow> throttled t0 s"
  by (simp add: throttled_def)

lemma run_spaced:
  assumes "setItemCalls s = []" "lastSaveAt s \<le> t0" "timed t0 evs"
  shows "spaced (setItemCalls (run evs s))"
proof -
  from timed_snoc [OF assms(3)] obtain e where "timed t0 (evs @ [Frame e])" ..
  from throttled_run [OF throttled_initial [OF assms(1,2)] this]
  show ?thesis by (simp add: throttled_def)
qed

lemma save_forced:
  assumes "boards s bid = Some b"
  shows "saveBoardToStorage e bid True s =
     s\<lparr>lastSaveAt := perfNow e,
        localStorage := (localStorage s)(storageKeyBoard (modeKey b) (seedKey b) \<mapsto> JObject (toSave b)),
        setItemCalls := setItemCalls s @
          [\<lparr>callTime = perfNow e, callKey = storageKeyBoard (modeKey b) (seedKey b), callForced = True\<rparr>]\<rparr>"
  using assms by (simp add: saveBoardToStorage_def Let_def)

lemma save_unforced:
  assumes "boards s bid = Some b"
  shows "saveBoardToStorage e bid False s =
     (if perfNow e - lastSaveAt s < 700 then s
      else s\<lparr>lastSaveAt := perfNow e,
        localStorage := (localStorage s)(storageKeyBoard (modeKey b) (seedKey b) \<mapsto> JObject (toSave b)),
        setItemCalls := setItemCalls s @
          [\<lparr>callTime = perfNow e, callKey = storageKeyBoard (modeKey b) (seedKey b), callForced = False\<rparr>]\<rparr>)"
  using assms by (simp add: saveBoardToStorage_def Let_def saveIntervalMs_def)

lemma save_blocked:
  assumes th: "throttled (perfNow e) s" and c: "c \<in> set (setItemCalls s)"
    and w: "perfNow e - callTime c < 700"
  shows "saveBoardToStorage e bid False s = s"
proof -
  from th c have "callTime c \<le> lastSaveAt s" by (auto simp: throttled_def list_all_iff)
  with w have "perfNow e - lastSaveAt s < saveIntervalMs" by (simp add: saveIntervalMs_def)
  then show ?thesis by (simp add: saveBoardToStorage_def Let_def split: option.splits)
qed

text \<open>
  Claim C9. A save with \<open>force = true\<close>, and \<open>saveBoardNow\<close>, always writes, whatever
  the time of the last save. A save that is not forced writes when at least 700 ms have
  passed since \<open>lastSaveAt\<close> and changes nothing otherwise. In every run from a state
  without recorded writes, with a clock that never goes back, two writes of saves that
  were not forced are at least 700 ms apart: no window of 700 ms holds more than one of
  them. The throttle is one for the whole application, so the bound holds for the writes
  of every call site together, and with it for those of each call site.
\<close>

theorem save_throttled:
  "(boards s bid = Some b \<longrightarrow>
      setItemCalls (saveBoardToStorage e bid True s) = setItemCalls s @
        [\<lparr>callTime = perfNow e, callKey = storageKeyBoard (modeKey b) (seedKey b), callForced = True\<rparr>] \<and>
      localStorage (saveBoardToStorage e bid True s) (storageKeyBoard (modeKey b) (seedKey b))
        = Some (JObject (toSave b)) \<and>
      setItemCalls (saveBoardNow e bid s) = setItemCalls s @
        [\<lparr>callTime = perfNow e, callKey = storageKeyBoard (modeKey b) (seedKey b), callForced = True\<rparr>]) \<and>
   (boards s bid = Some b \<and> perfNow e - lastSaveAt s < 700 \<longrightarrow>
      saveBoardToStorage e bid False s = s) \<and>
   (boards s bid = Some b \<and> 700 \<le> perfNow e - lastSaveAt s \<longrightarrow>
      setItemCalls (saveBoardToStorage e bid False s) = setItemCalls s @
        [\<lparr>callTime = perfNow e, callKey = storageKeyBoard (modeKey b) (seedKey b), callForced = False\<rparr>]) \<and>
   (setItemCalls s = [] \<and> lastSaveAt s \<le> t0 \<and> timed t0 evs \<and>
      i < j \<and> j < length (setItemCalls (run evs s)) \<and>
      \<not> callForced (setItemCalls (run evs s) ! i) \<and> \<not> callForced (setItemCalls (run evs s) ! j) \<longrightarrow>
      callTime (setItemCalls (run evs s) ! i) + 700 \<le> callTime (setItemCalls (run evs s) ! j))"
proof (intro conjI impI)
  assume b: "boards s bid = Some b"
  show "setItemCalls (saveBoardToStorage e bid True s) = setItemCalls s @
        [\<lparr>callTime = perfNow e, callKey = storageKeyBoard (modeKey b) (seedKey b), callForced = True\<rparr>]"
    by (simp add: save_forced [OF b])
  show "localStorage (saveBoardToStorage e bid True s) (storageKeyBoard (modeKey b) (seedKey b))
        = Some (JObject (toSave b))"
    by (simp add: save_forced [OF b])
  show "setItemCalls (saveBoardNow e bid s) = setItemCalls s @
        [\<lparr>callTime = perfNow e, callKey = storageKeyBoard (modeKey b) (seedKey b), callForced = True\<rparr>]"
    by (rule saveBoardNow_Some(2) [OF b])
next
  assume "boards s bid = Some b \<and> perfNow e - lastSaveAt s < 700"
  then show "saveBoardToStorage e bid False s = s"
    using save_unforced [of s bid b e] by simp
next
  assume "boards s bid = Some b \<and> 700 \<le> perfNow e - lastSaveAt s"
  then show "setItemCalls (saveBoardToStorage e bid False s) = setItemCalls s @
        [\<lparr>callTime = perfNow e, callKey = storageKeyBoard (modeKey b) (seedKey b), callForced = False\<rparr>]"
    using save_unforced [of s bid b e] by simp
next
  assume h: "setItemCalls s = [] \<and> lastSaveAt s \<le> t0 \<and> timed t0 evs \<and>
      i < j \<and> j < length (setItemCalls (run evs s)) \<and>
      \<not> callForced (setItemCalls (run evs s) ! i) \<and> \<not> callForced (setItemCalls (run evs s) ! j)"
  then have "setItemCalls s = []" "lastSaveAt s \<le> t0" "timed t0 evs" by blast+
  then have "spaced (setItemCalls (run evs s))" by (rule run_spaced)
  from spaced_nth [OF this, of i j] h
  show "callTime (setItemCalls (run evs s) ! i) + 700 \<le> callTime (setItemCalls (run evs s) ! j)"
    by (simp add: saveIntervalMs_def)
qed

theorem save_throttled_witness:
  "boards exampleApp ''daily.2024-01-01'' = Some exampleBoard \<and>
   perfNow exampleEnv - lastSaveAt exampleApp < 700 \<and>
   saveBoardToStorage exampleEnv ''daily.2024-01-01'' False exampleApp = exampleApp \<and>
   setItemCalls (saveBoardToStorage exampleEnv ''daily.2024-01-01'' True exampleApp) =
     setItemCalls exampleApp @
     [\<lparr>callTime = perfNow exampleEnv,
       callKey = storageKeyBoard (modeKey exampleBoard) (seedKey exampleBoard), callForced = True\<rparr>] \<and>
   setItemCalls exampleApp = [] \<and> lastSaveAt exampleApp \<le> 5900 \<and> timed 5900 exampleRun \<and>
   map callTime (setItemCalls (run exampleRun exampleApp)) = [6700, 7100, 7200, 7900] \<and>
   map callForced (setItemCalls (run exampleRun exampleApp)) = [False, True, True, False] \<and>
   callTime (setItemCalls (run exampleRun exampleApp) ! 0) + 700
     \<le> callTime (setItemCalls (run exampleRun exampleApp) ! 3)"
proof -
  have h1: "boards exampleApp ''daily.2024-01-01'' = Some exampleBoard"
    by (simp add: exampleApp_def)
  have h2: "perfNow exampleEnv - lastSaveAt exampleApp < 700"
    by (simp add: exampleApp_def exampleEnv_def)
  have h3: "setItemCalls exampleApp = []" "lastSaveAt exampleApp \<le> 5900"
    by (simp_all add: exampleApp_def)
  have h4: "timed 5900 exampleRun" by (simp add: exampleRun_def)
  have h5: "map callTime (setItemCalls (run exampleRun exampleApp)) = [6700, 7100, 7200, 7900]"
    by code_simp
  have h6: "map callForced (setItemCalls (run exampleRun exampleApp)) = [False, True, True, False]"
    by code_simp
  have len: "length (setItemCalls (run exampleRun exampleApp)) = 4"
    using arg_cong [OF h6, of length] by simp
  have nf: "\<not> callForced (setItemCalls (run exampleRun exampleApp) ! 0)"
    "\<not> callForced (setItemCalls (run exampleRun exampleApp) ! 3)"
    using arg_cong [OF h6, of "\<lambda>xs. xs ! 0"] arg_cong [OF h6, of "\<lambda>xs. xs ! 3"] len
    by simp_all
  note t = save_throttled [where s = exampleApp and bid = "''daily.2024-01-01''" and b = exampleBoard
      and e = exampleEnv and ?t0.0 = 5900 and evs = exampleRun and i = 0 and j = 3]
  from t h1 h2 have r1: "saveBoardToStorage exampleEnv ''daily.2024-01-01'' False exampleApp = exampleApp"
    by blast
  from t h1 have r2: "setItemCalls (saveBoardToStorage exampleEnv ''daily.2024-01-01'' True exampleApp) =
     setItemCalls exampleApp @
     [\<lparr>callTime = perfNow exampleEnv,
       callKey = storageKeyBoard (modeKey exampleBoard) (seedKey exampleBoard), callForced = True\<rparr>]"
    by blast
  from t h3 h4 nf len have r3: "callTime (setItemCalls (run exampleRun exampleApp) ! 0) + 700
     \<le> callTime (setItemCalls (run exampleRun exampleApp) ! 3)"
    by simp
  from h1 h2 r1 r2 h3 h4 h5 h6 r3 show ?thesis by (intro conjI)
qed

text \<open>
  Claim C10. The throttle is one timestamp for the whole application. Every write, of a
  forced save or not and of whatever board, sets \<open>lastSaveAt\<close> to its instant. So,
  after every run from a state without recorded writes, with a clock that never goes
  back, a save that is not forced, of any board, at an instant \<open>now\<close> not before the
  run's events (\<open>timed t0 (evs @ [Frame e])\<close>) writes nothing and changes nothing when
  some recorded write, of any board and any call site, forced or not, is less than
  700 ms before \<open>now\<close>; and in the record of the run every write of a save that was not
  forced comes at least 700 ms after every earlier write.
\<close>

theorem save_throttle_shared:
  "(boards s bid = Some b \<and> (force \<or> 700 \<le> perfNow e - lastSaveAt s) \<longrightarrow>
      lastSaveAt (saveBoardToStorage e bid force s) = perfNow e \<and>
      setItemCalls (saveBoardToStorage e bid force s) = setItemCalls s @
        [\<lparr>callTime = perfNow e, callKey = storageKeyBoard (modeKey b) (seedKey b), callForced = force\<rparr>]) \<and>
   (setItemCalls s = [] \<and> lastSaveAt s \<le> t0 \<and> timed t0 (evs @ [Frame e]) \<and>
      c \<in> set (setItemCalls (run evs s)) \<and> perfNow e - callTime c < 700 \<longrightarrow>
      saveBoardToStorage e bid' False (run evs s) = run evs s) \<and>
   (setItemCalls s = [] \<and> lastSaveAt s \<le> t0 \<and> timed t0 evs \<and>
      i < j \<and> j < length (setItemCalls (run evs s)) \<and>
      \<not> callForced (setItemCalls (run evs s) ! j) \<longrightarrow>
      callTime (setItemCalls (run evs s) ! i) + 700 \<le> callTime (setItemCalls (run evs s) ! j))"
proof (intro conjI impI)
  assume h: "boards s bid = Some b \<and> (force \<or> 700 \<le> perfNow e - lastSaveAt s)"
  then show "lastSaveAt (saveBoardToStorage e bid force s) = perfNow e"
    by (auto simp: saveBoardToStorage_def Let_def saveIntervalMs_def)
  from h show "setItemCalls (saveBoardToStorage e bid force s) = setItemCalls s @
        [\<lparr>callTime = perfNow e, callKey = storageKeyBoard (modeKey b) (seedKey b), callForced = force\<rparr>]"
    by (auto simp: saveBoardToStorage_def Let_def saveIntervalMs_def)
next
  assume h: "setItemCalls s = [] \<and> lastSaveAt s \<le> t0 \<and> timed t0 (evs @ [Frame e]) \<and>
      c \<in> set (setItemCalls (run evs s)) \<and> perfNow e - callTime c < 700"
  then have h1: "setItemCalls s = []" and h2: "lastSaveAt s \<le> t0"
    and h3: "timed t0 (evs @ [Frame e])" and h4: "c \<in> set (setItemCalls (run evs s))"
    and h5: "perfNow e - callTime c < 700"
    by blast+
  from h1 h2 have "throttled t0 s" by (rule throttled_initial)
  from this h3 have "throttled (perfNow e) (run evs s)" by (rule throttled_run)
  from this h4 h5 show "saveBoardToStorage e bid' False (run evs s) = run evs s"
    by (rule save_blocked)
next
  assume h: "setItemCalls s = [] \<and> lastSaveAt s \<le> t0 \<and> timed t0 evs \<and>
      i < j \<and> j < length (setItemCalls (run evs s)) \<and>
      \<not> callForced (setItemCalls (run evs s) ! j)"
  then have "setItemCalls s = []" "lastSaveAt s \<le> t0" "timed t0 evs" by blast+
  then have "spaced (setItemCalls (run evs s))" by (rule run_spaced)
  from spaced_nth [OF this, of i j] h
  show "callTime (setItemCalls (run evs s) ! i) + 700 \<le> callTime (setItemCalls (run evs s) ! j)"
    by (simp add: saveIntervalMs_def)
qed

theorem save_throttle_shared_witness:
  "boards twoBoardApp ''daily.2024-01-01'' = Some exampleBoard \<and>
   lastSaveAt (saveBoardToStorage exampleEnv ''daily.2024-01-01'' True twoBoardApp) = perfNow exampleEnv \<and>
   setItemCalls twoBoardApp = [] \<and> lastSaveAt twoBoardApp \<le> 5900 \<and>
   timed 5900 (pauseResumeRun @ [Frame (exampleEnv\<lparr>perfNow := 7500\<rparr>)]) \<and>
   \<lparr>callTime = 7200, callKey = ''speedle.board.daily.2024-01-01'', callForced = True\<rparr>
     \<in> set (setItemCalls (run pauseResumeRun twoBoardApp)) \<and>
   boards (run pauseResumeRun twoBoardApp) ''short.2024-01-01 08:00'' = Some shortBoard \<and>
   saveBoardToStorage (exampleEnv\<lparr>perfNow := 7500\<rparr>) ''short.2024-01-01 08:00'' False
     (run pauseResumeRun twoBoardApp) = run pauseResumeRun twoBoardApp \<and>
   timed 5900 exampleRun \<and>
   map callTime (setItemCalls (run exampleRun exampleApp)) = [6700, 7100, 7200, 7900] \<and>
   map callForced (setItemCalls (run exampleRun exampleApp)) = [False, True, True, False] \<and>
   callTime (setItemCalls (run exampleRun exampleApp) ! 2) + 700
     \<le> callTime (setItemCalls (run exampleRun exampleApp) ! 3)"
proof -
  let ?c = "\<lparr>callTime = 7200, callKey = ''speedle.board.daily.2024-01-01'', callForced = True\<rparr>"
  let ?e = "exampleEnv\<lparr>perfNow := 7500\<rparr>"
  have h1: "boards twoBoardApp ''daily.2024-01-01'' = Some exampleBoard"
    by (simp add: twoBoardApp_def exampleApp_def)
  have h3: "setItemCalls twoBoardApp = []" "lastSaveAt twoBoardApp \<le> 5900"
    by (simp_all add: twoBoardApp_def exampleApp_def)
  have h4: "timed 5900 (pauseResumeRun @ [Frame ?e])"
    by (simp add: pauseResumeRun_def)
  have h5: "?c \<in> set (setItemCalls (run pauseResumeRun twoBoardApp))"
    by code_simp
  have h6: "perfNow ?e - callTime ?c < 700" by simp
  have h7: "boards (run pauseResumeRun twoBoardApp) ''short.2024-01-01 08:00'' = Some shortBoard"
    unfolding run_def pauseResumeRun_def
    by (simp add: other_pauseBoard other_resumeBoard twoBoardApp_def)
  have g3: "setItemCalls exampleApp = []" "lastSaveAt exampleApp \<le> 5900"
    by (simp_all add: exampleApp_def)
  have g4: "timed 5900 exampleRun" by (simp add: exampleRun_def)
  have g5: "map callTime (setItemCalls (run exampleRun exampleApp)) = [6700, 7100, 7200, 7900]"
    by code_simp
  have g6: "map callForced (setItemCalls (run exampleRun exampleApp)) = [False, True, True, False]"
    by code_simp
  have len: "length (setItemCalls (run exampleRun exampleApp)) = 4"
    using arg_cong [OF g6, of length] by simp
  have nf: "\<not> callForced (setItemCalls (run exampleRun exampleApp) ! 3)"
    using arg_cong [OF g6, of "\<lambda>xs. xs ! 3"] len by simp
  note t1 = save_throttle_shared [where s = twoBoardApp and bid = "''daily.2024-01-01''"
      and b = exampleBoard and e = exampleEnv and force = True]
  from t1 h1 have r1:
    "lastSaveAt (saveBoardToStorage exampleEnv ''daily.2024-01-01'' True twoBoardApp) = perfNow exampleEnv"
    by blast
  note t2 = save_throttle_shared [where s = twoBoardApp and ?t0.0 = 5900 and evs = pauseResumeRun
      and e = ?e and c = ?c and bid' = "''short.2024-01-01 08:00''"]
  from t2 h3 h4 h5 h6 have r2:
    "saveBoardToStorage ?e ''short.2024-01-01 08:00'' False (run pauseResumeRun twoBoardApp)
      = run pauseResumeRun twoBoardApp"
    by blast
  note t3 = save_throttle_shared [where s = exampleApp and ?t0.0 = 5900 and evs = exampleRun
      and i = 2 and j = 3]
  from t3 g3 g4 nf len have r3: "callTime (setItemCalls (run exampleRun exampleApp) ! 2) + 700
     \<le> callTime (setItemCalls (run exampleRun exampleApp) ! 3)"
    by simp
  from h1 r1 h3 h4 h5 h7 r2 g4 g5 g6 r3 show ?thesis by (intro conjI)
qed

end
